theory Spec2Isabelle
  imports Main "HOL-Library.Word" "HOL-Library.List_Lexorder"
begin

section \<open>JavaScript strings\<close>

text \<open>
  A JavaScript string is a sequence of UTF-16 code units. Regular expressions without
  the \<^verbatim>\<open>u\<close> flag, \<^verbatim>\<open>split\<close>, \<^verbatim>\<open>trim\<close> and the default
  \<^verbatim>\<open>Array.prototype.sort\<close> all work on code units; a regular expression with the
  \<^verbatim>\<open>u\<close> flag reads a high surrogate followed by a low surrogate as one code point.
\<close>

type_synonym jschar = "16 word"
type_synonym jsstring = "jschar list"

text \<open>ASCII literals: \<open>js ''abc''\<close> is the JavaScript string \<^verbatim>\<open>'abc'\<close>.\<close>

definition js :: "string \<Rightarrow> jsstring" where
  "js s = map (\<lambda>c. of_nat (of_char c)) s"

text \<open>
  The character classes of the source's regular expressions, as predicates on the
  numeric value of a code point.

  \<^verbatim>\<open>\s\<close> is WhiteSpace or LineTerminator of ECMA-262: TAB, LF, VT, FF, CR, SP, NBSP,
  U+1680, U+2000..U+200A, LS, PS, U+202F, U+205F, U+3000, U+FEFF. \<^verbatim>\<open>trim\<close> strips
  the same set. \<^verbatim>\<open>\w\<close> is \<^verbatim>\<open>[A-Za-z0-9_]\<close>. \<^verbatim>\<open>[a-f0-9]\<close> under the
  \<^verbatim>\<open>i\<close> flag also matches \<^verbatim>\<open>A-F\<close>.
\<close>

definition isSpaceCp :: "nat \<Rightarrow> bool" where
  "isSpaceCp n \<longleftrightarrow>
     (9 \<le> n \<and> n \<le> 13) \<or> n = 0x20 \<or> n = 0xA0 \<or> n = 0x1680 \<or>
     (0x2000 \<le> n \<and> n \<le> 0x200A) \<or> n = 0x2028 \<or> n = 0x2029 \<or> n = 0x202F \<or>
     n = 0x205F \<or> n = 0x3000 \<or> n = 0xFEFF"

definition isWordCp :: "nat \<Rightarrow> bool" where
  "isWordCp n \<longleftrightarrow>
     (0x41 \<le> n \<and> n \<le> 0x5A) \<or> (0x61 \<le> n \<and> n \<le> 0x7A) \<or>
     (0x30 \<le> n \<and> n \<le> 0x39) \<or> n = 0x5F"

definition isHexCp :: "nat \<Rightarrow> bool" where
  "isHexCp n \<longleftrightarrow>
     (0x61 \<le> n \<and> n \<le> 0x66) \<or> (0x30 \<le> n \<and> n \<le> 0x39) \<or> (0x41 \<le> n \<and> n \<le> 0x46)"

text \<open>
  The emoji ranges of line 17: U+1F600-1F64F, U+1F300-1F5FF, U+1F680-1F6FF,
  U+1F1E0-1F1FF, U+2600-26FF, U+2700-27BF.
\<close>

definition isEmojiCp :: "nat \<Rightarrow> bool" where
  "isEmojiCp n \<longleftrightarrow>
     (0x1F600 \<le> n \<and> n \<le> 0x1F64F) \<or> (0x1F300 \<le> n \<and> n \<le> 0x1F5FF) \<or>
     (0x1F680 \<le> n \<and> n \<le> 0x1F6FF) \<or> (0x1F1E0 \<le> n \<and> n \<le> 0x1F1FF) \<or>
     (0x2600 \<le> n \<and> n \<le> 0x26FF) \<or> (0x2700 \<le> n \<and> n \<le> 0x27BF)"

text \<open>The class \<^verbatim>\<open>[\w\s...emoji...]\<close> whose complement line 17 removes.\<close>

definition keepCp :: "nat \<Rightarrow> bool" where
  "keepCp n \<longleftrightarrow> isWordCp n \<or> isSpaceCp n \<or> isEmojiCp n"

definition isSpace :: "jschar \<Rightarrow> bool" where
  "isSpace c = isSpaceCp (unat c)"

definition isHex :: "jschar \<Rightarrow> bool" where
  "isHex c = isHexCp (unat c)"

definition isHighSurrogate :: "jschar \<Rightarrow> bool" where
  "isHighSurrogate c \<longleftrightarrow> 0xD800 \<le> unat c \<and> unat c \<le> 0xDBFF"

definition isLowSurrogate :: "jschar \<Rightarrow> bool" where
  "isLowSurrogate c \<longleftrightarrow> 0xDC00 \<le> unat c \<and> unat c \<le> 0xDFFF"

definition codePoint :: "jschar \<Rightarrow> jschar \<Rightarrow> nat" where
  "codePoint h l = 0x10000 + (unat h - 0xD800) * 0x400 + (unat l - 0xDC00)"

section \<open>cleanFolderName (lines 11-20)\<close>

text \<open>
  Line 13, \<^verbatim>\<open>folderName.replace(/\s+[a-f0-9]{32}$/i, '')\<close>.

  \<open>matchHashAt s\<close>: the pattern matches the whole of \<open>s\<close>, starting at its first
  code unit. The greedy \<^verbatim>\<open>\s+\<close> takes the whole leading whitespace run; giving
  part of it back cannot help, since the next code unit would be whitespace and not
  a hexadecimal digit. What follows must be exactly 32 hexadecimal digits up to the
  end of the string.

  \<open>stripHash\<close>: a non-global \<^verbatim>\<open>replace\<close> tries the start positions from left
  to right and replaces the first match. The match reaches the end of the string, so
  what remains is the part before the match.
\<close>

definition matchHashAt :: "jsstring \<Rightarrow> bool" where
  "matchHashAt s \<longleftrightarrow>
     takeWhile isSpace s \<noteq> [] \<and>
     length (dropWhile isSpace s) = 32 \<and>
     list_all isHex (dropWhile isSpace s)"

fun stripHash :: "jsstring \<Rightarrow> jsstring" where
  "stripHash [] = []"
| "stripHash (c # cs) = (if matchHashAt (c # cs) then [] else c # stripHash cs)"

text \<open>
  Line 17, the global replacement under the \<^verbatim>\<open>u\<close> flag: the string is read code
  point by code point (a surrogate pair is one code point, a lone surrogate is a
  code point of its own value) and every code point outside the class is dropped.
\<close>

fun removeSpecial :: "jsstring \<Rightarrow> jsstring" where
  "removeSpecial [] = []"
| "removeSpecial [c] = (if keepCp (unat c) then [c] else [])"
| "removeSpecial (h # l # cs) =
     (if isHighSurrogate h \<and> isLowSurrogate l then
        (if keepCp (codePoint h l) then h # l # removeSpecial cs else removeSpecial cs)
      else
        (if keepCp (unat h) then h # removeSpecial (l # cs) else removeSpecial (l # cs)))"

text \<open>
  Line 18, \<^verbatim>\<open>.replace(/\s+/g, '_')\<close>: every maximal whitespace run becomes one
  underscore.
\<close>

function collapseSpaces :: "jsstring \<Rightarrow> jsstring" where
  "collapseSpaces [] = []"
| "collapseSpaces (c # cs) =
     (if isSpace c then 0x5F # collapseSpaces (dropWhile isSpace cs)
      else c # collapseSpaces cs)"
  by pat_completeness auto
termination
  by (relation "measure length") (auto simp: length_dropWhile_le less_Suc_eq_le)

text \<open>Line 19, \<^verbatim>\<open>.trim()\<close>: whitespace is stripped from both ends.\<close>

definition trim :: "jsstring \<Rightarrow> jsstring" where
  "trim s = rev (dropWhile isSpace (rev (dropWhile isSpace s)))"

definition cleanFolderName :: "jsstring \<Rightarrow> jsstring" where
  "cleanFolderName folderName =
     (let cleaned = stripHash folderName
      in trim (collapseSpaces (removeSpecial cleaned)))"

section \<open>generateFileName (lines 22-38)\<close>

text \<open>
  \<^verbatim>\<open>folderPath.split('/')\<close>: the pieces between the separators; a string without a
  separator (the empty string too) gives one piece.
\<close>

fun split :: "jschar \<Rightarrow> jsstring \<Rightarrow> jsstring list" where
  "split sep [] = [[]]"
| "split sep (c # cs) =
     (if c = sep then [] # split sep cs
      else (c # hd (split sep cs)) # tl (split sep cs))"

text \<open>
  \<^verbatim>\<open>String(index)\<close> for a non-negative integer: its decimal digits, no leading zero.
  The index is \<^verbatim>\<open>i + 1\<close> for an array index \<^verbatim>\<open>i\<close>, far below the range where
  JavaScript switches to exponent notation.
\<close>

definition digit :: "nat \<Rightarrow> jschar" where
  "digit d = of_nat (0x30 + d)"

function String_nat :: "nat \<Rightarrow> jsstring" where
  "String_nat n = (if n < 10 then [digit n] else String_nat (n div 10) @ [digit (n mod 10)])"
  by pat_completeness auto
termination
  by (relation "measure id") auto

declare String_nat.simps [simp del]

definition padStart :: "nat \<Rightarrow> jschar \<Rightarrow> jsstring \<Rightarrow> jsstring" where
  "padStart n c s = replicate (n - length s) c @ s"

definition generateFileName :: "jsstring \<Rightarrow> nat \<Rightarrow> jsstring" where
  "generateFileName folderPath index =
     (let parts = filter (\<lambda>part. part \<noteq> js ''.'') (split 0x2F folderPath);
          cleanedParts = map cleanFolderName parts;
          paddedIndex = padStart 2 0x30 (String_nat index)
      in if length cleanedParts = 0 then
           paddedIndex @ js ''-Root.pdf''
         else if length cleanedParts = 1 then
           paddedIndex @ js ''-'' @ cleanedParts ! 0 @ js ''.pdf''
         else
           (let parent = cleanedParts ! (length cleanedParts - 2);
                child = cleanedParts ! (length cleanedParts - 1)
            in paddedIndex @ js ''-'' @ parent @ js ''-'' @ child @ js ''.pdf''))"

section \<open>The environment: Node's fs module, pdf-lib, the console\<close>

text \<open>
  A directory entry as \<^verbatim>\<open>readdir(..., { withFileTypes: true })\<close> returns it: its name
  and whether it is a regular file, a directory or something else (a symbolic link,
  a socket). A directory entry of the scanned tree carries what \<^verbatim>\<open>readdir\<close> of that
  directory returns: \<open>None\<close> when it throws, its entries in the order of the listing
  otherwise. Entry names are not empty, hold no \<^verbatim>\<open>/\<close> and are neither \<^verbatim>\<open>.\<close> nor
  \<^verbatim>\<open>..\<close>.
\<close>

datatype item =
    FileItem jsstring
  | DirItem jsstring "item list option"
  | OtherItem jsstring

fun itemName :: "item \<Rightarrow> jsstring" where
  "itemName (FileItem n) = n"
| "itemName (DirItem n sub) = n"
| "itemName (OtherItem n) = n"

fun isFile :: "item \<Rightarrow> bool" where
  "isFile (FileItem n) = True"
| "isFile (DirItem n sub) = False"
| "isFile (OtherItem n) = False"

type_synonym bytes = "8 word list"

datatype page = Page nat

text \<open>
  The console: one entry per line written, with the method that wrote it. The
  texts of caught exceptions and the sizes formatted by \<^verbatim>\<open>formatBytes\<close> (floating
  point) are left out of the entries.
\<close>

datatype level = ConsoleLog | ConsoleWarn | ConsoleError

datatype message =
    SkippingSmallFile jsstring
  | CouldNotStat jsstring
  | ErrorReadingFolder jsstring
  | NoPDFsToMerge
  | CopiedSinglePDF jsstring
  | ErrorCopyingSinglePDF
  | Adding jsstring
  | CouldNotProcess jsstring
  | CreatedMergedPDF
  | ErrorMergingPDFs
  | ErrorScanning jsstring
  | Starting jsstring jsstring
  | ScanningForFolders
  | FoundFolders nat
  | Processing nat nat jsstring
  | Output jsstring
  | Success
  | FailedToMerge
  | NoValidPDFsFound
  | MergeSummary nat nat jsstring
  | GeneratedFile jsstring
  | FatalError

type_synonym console = "(level \<times> message) list"

text \<open>
  The library functions the program calls, as parameters: the program is verified for
  every behaviour of the file system and of pdf-lib. \<open>'w\<close> is the state of the file
  system. A call that throws returns \<open>None\<close> (or \<open>False\<close> with the state it leaves
  behind, for a call that writes). \<open>stat\<close> gives the size in bytes.
  \<open>PDFDocument_load\<close> stands for loading a document and copying its pages into the
  merged document (lines 103-106); \<open>PDFDocument_save\<close> serialises the pages
  collected.
\<close>

record 'w node_env =
  readdir :: "'w \<Rightarrow> jsstring \<Rightarrow> item list option"
  stat :: "'w \<Rightarrow> jsstring \<Rightarrow> nat option"
  readFile :: "'w \<Rightarrow> jsstring \<Rightarrow> bytes option"
  copyFile :: "'w \<Rightarrow> jsstring \<Rightarrow> jsstring \<Rightarrow> bool \<times> 'w"
  writeFile :: "'w \<Rightarrow> jsstring \<Rightarrow> bytes \<Rightarrow> bool \<times> 'w"
  mkdir :: "'w \<Rightarrow> jsstring \<Rightarrow> bool \<times> 'w"
  PDFDocument_load :: "bytes \<Rightarrow> page list option"
  PDFDocument_save :: "page list \<Rightarrow> bytes option"
  localeCompare :: "jsstring \<Rightarrow> jsstring \<Rightarrow> int"

record 'w state =
  world :: 'w
  console :: console

definition say :: "level \<Rightarrow> message \<Rightarrow> 'w state \<Rightarrow> 'w state" where
  "say lvl msg st = st\<lparr>console := console st @ [(lvl, msg)]\<rparr>"

text \<open>
  \<^verbatim>\<open>path.join(a, b)\<close> for a normalised directory path \<open>a\<close> that does not end in a
  separator and an entry name \<open>b\<close>.
\<close>

definition path_join :: "jsstring \<Rightarrow> jsstring \<Rightarrow> jsstring" where
  "path_join a b = a @ 0x2F # b"

text \<open>
  \<^verbatim>\<open>name.toLowerCase().endsWith('.pdf')\<close>. Lower-casing maps \<^verbatim>\<open>A-Z\<close> to \<^verbatim>\<open>a-z\<close>;
  no other character has \<^verbatim>\<open>.\<close>, \<^verbatim>\<open>p\<close>, \<^verbatim>\<open>d\<close> or \<^verbatim>\<open>f\<close> in its lower-case form,
  so the test reads the last four code units only.
\<close>

definition toLowerAscii :: "jschar \<Rightarrow> jschar" where
  "toLowerAscii c = (if 0x41 \<le> unat c \<and> unat c \<le> 0x5A then c + 0x20 else c)"

definition isPdfName :: "jsstring \<Rightarrow> bool" where
  "isPdfName n \<longleftrightarrow> 4 \<le> length n \<and> map toLowerAscii (drop (length n - 4) n) = js ''.pdf''"

section \<open>Configuration (lines 8-9)\<close>

definition MIN_FILE_SIZE :: nat where
  "MIN_FILE_SIZE = 20 * 1024"

definition OUTPUT_DIR :: jsstring where
  "OUTPUT_DIR = js ''output''"

section \<open>getValidPDFs (lines 40-74)\<close>

record pdf_file =
  pdf_name :: jsstring
  pdf_path :: jsstring
  pdf_size :: nat

text \<open>
  \<^verbatim>\<open>validPDFs.sort((a, b) => a.name.localeCompare(b.name))\<close>: the sort is stable
  (ECMAScript 2019), here an insertion sort that puts an element before the first
  one it does not compare greater than.
\<close>

fun insertBy :: "('a \<Rightarrow> 'a \<Rightarrow> int) \<Rightarrow> 'a \<Rightarrow> 'a list \<Rightarrow> 'a list" where
  "insertBy cmp x [] = [x]"
| "insertBy cmp x (y # ys) = (if cmp x y \<le> 0 then x # y # ys else y # insertBy cmp x ys)"

definition sortBy :: "('a \<Rightarrow> 'a \<Rightarrow> int) \<Rightarrow> 'a list \<Rightarrow> 'a list" where
  "sortBy cmp xs = foldr (insertBy cmp) xs []"

text \<open>
  The loop of lines 45-64, with the threshold of line 51 as a parameter
  (\<open>MIN_FILE_SIZE\<close> is the constant the README tells the user to edit).
\<close>

fun collectPDFs ::
  "nat \<Rightarrow> 'w node_env \<Rightarrow> jsstring \<Rightarrow> item list \<Rightarrow> pdf_file list \<times> 'w state \<Rightarrow> pdf_file list \<times> 'w state"
where
  "collectPDFs minSize env folderPath [] (validPDFs, st) = (validPDFs, st)"
| "collectPDFs minSize env folderPath (item # items) (validPDFs, st) =
     (if isFile item \<and> isPdfName (itemName item) then
        (let fullPath = path_join folderPath (itemName item)
         in case stat env (world st) fullPath of
              Some sz \<Rightarrow>
                (if sz \<ge> minSize then
                   collectPDFs minSize env folderPath items
                     (validPDFs @ [\<lparr>pdf_name = itemName item, pdf_path = fullPath, pdf_size = sz\<rparr>], st)
                 else
                   collectPDFs minSize env folderPath items
                     (validPDFs, say ConsoleLog (SkippingSmallFile (itemName item)) st))
            | None \<Rightarrow>
                collectPDFs minSize env folderPath items
                  (validPDFs, say ConsoleWarn (CouldNotStat (itemName item)) st))
      else collectPDFs minSize env folderPath items (validPDFs, st))"

definition getValidPDFsWith ::
  "nat \<Rightarrow> 'w node_env \<Rightarrow> 'w state \<Rightarrow> jsstring \<Rightarrow> pdf_file list \<times> 'w state"
where
  "getValidPDFsWith minSize env st folderPath =
     (case readdir env (world st) folderPath of
        Some items \<Rightarrow>
          (case collectPDFs minSize env folderPath items ([], st) of
             (validPDFs, st') \<Rightarrow>
               (sortBy (\<lambda>a b. localeCompare env (pdf_name a) (pdf_name b)) validPDFs, st'))
      | None \<Rightarrow> ([], say ConsoleError (ErrorReadingFolder folderPath) st))"

definition getValidPDFs ::
  "'w node_env \<Rightarrow> 'w state \<Rightarrow> jsstring \<Rightarrow> pdf_file list \<times> 'w state"
where
  "getValidPDFs = getValidPDFsWith MIN_FILE_SIZE"

section \<open>mergePDFs (lines 76-124)\<close>

text \<open>
  The loop of lines 98-112. Reading or loading a file that throws is caught inside
  the loop: a warning, and the loop goes on with the next file.
\<close>

fun importAll ::
  "'w node_env \<Rightarrow> 'w \<Rightarrow> pdf_file list \<Rightarrow> page list \<times> console \<Rightarrow> page list \<times> console"
where
  "importAll env w [] (mergedPdf, con) = (mergedPdf, con)"
| "importAll env w (pdfFile # rest) (mergedPdf, con) =
     (let con1 = con @ [(ConsoleLog, Adding (pdf_name pdfFile))]
      in case readFile env w (pdf_path pdfFile) of
           None \<Rightarrow>
             importAll env w rest
               (mergedPdf, con1 @ [(ConsoleWarn, CouldNotProcess (pdf_name pdfFile))])
         | Some pdfBytes \<Rightarrow>
             (case PDFDocument_load env pdfBytes of
                None \<Rightarrow>
                  importAll env w rest
                    (mergedPdf, con1 @ [(ConsoleWarn, CouldNotProcess (pdf_name pdfFile))])
              | Some pages \<Rightarrow> importAll env w rest (mergedPdf @ pages, con1)))"

definition mergePDFs ::
  "'w node_env \<Rightarrow> 'w state \<Rightarrow> pdf_file list \<Rightarrow> jsstring \<Rightarrow> bool \<times> 'w state"
where
  "mergePDFs env st pdfFiles outputPath =
     (if length pdfFiles = 0 then
        (False, say ConsoleLog NoPDFsToMerge st)
      else if length pdfFiles = 1 then
        (case copyFile env (world st) (pdf_path (pdfFiles ! 0)) outputPath of
           (True, w') \<Rightarrow>
             (True, say ConsoleLog (CopiedSinglePDF (pdf_name (pdfFiles ! 0))) (st\<lparr>world := w'\<rparr>))
         | (False, w') \<Rightarrow>
             (False, say ConsoleError ErrorCopyingSinglePDF (st\<lparr>world := w'\<rparr>)))
      else
        (case importAll env (world st) pdfFiles ([], console st) of
           (mergedPdf, con) \<Rightarrow>
             (case PDFDocument_save env mergedPdf of
                None \<Rightarrow> (False, say ConsoleError ErrorMergingPDFs (st\<lparr>console := con\<rparr>))
              | Some pdfBytes \<Rightarrow>
                  (case writeFile env (world st) outputPath pdfBytes of
                     (True, w') \<Rightarrow>
                       (True, say ConsoleLog CreatedMergedPDF \<lparr>world = w', console = con\<rparr>)
                   | (False, w') \<Rightarrow>
                       (False, say ConsoleError ErrorMergingPDFs \<lparr>world = w', console = con\<rparr>)))))"

section \<open>scanFolders (lines 134-166)\<close>

text \<open>
  \<open>scan\<close> is the inner function of lines 137-162, \<open>scanItems\<close> its loop of lines
  151-157. The directory tree is finite, so the recursion is on the tree: the first
  argument of \<open>scan\<close> is what \<^verbatim>\<open>readdir(currentPath)\<close> returns. The array
  \<^verbatim>\<open>folders\<close> and the console are passed along.
\<close>

fun scan ::
  "item list option \<Rightarrow> jsstring \<Rightarrow> jsstring \<Rightarrow> jsstring list \<times> console \<Rightarrow> jsstring list \<times> console"
and scanItems ::
  "item list \<Rightarrow> jsstring \<Rightarrow> jsstring \<Rightarrow> jsstring list \<times> console \<Rightarrow> jsstring list \<times> console"
where
  "scan None currentPath relativePath (folders, con) =
     (folders, con @ [(ConsoleError, ErrorScanning currentPath)])"
| "scan (Some items) currentPath relativePath (folders, con) =
     (let hasDirectPDFs = list_ex (\<lambda>item. isFile item \<and> isPdfName (itemName item)) items
      in scanItems items currentPath relativePath
           (if hasDirectPDFs then folders @ [relativePath] else folders, con))"
| "scanItems [] currentPath relativePath acc = acc"
| "scanItems (FileItem n # items) currentPath relativePath acc =
     scanItems items currentPath relativePath acc"
| "scanItems (OtherItem n # items) currentPath relativePath acc =
     scanItems items currentPath relativePath acc"
| "scanItems (DirItem n sub # items) currentPath relativePath acc =
     (let subPath = path_join currentPath n;
          subRelative = (if relativePath = js ''.'' then n else path_join relativePath n)
      in scanItems items currentPath relativePath (scan sub subPath subRelative acc))"

text \<open>
  \<^verbatim>\<open>folders.sort()\<close> with no comparison function orders strings by their UTF-16
  code units, which is the lexicographic order of \<open>jsstring\<close> (unsigned comparison
  of the code units).
\<close>

definition scanFolders :: "item list option \<Rightarrow> jsstring \<Rightarrow> console \<Rightarrow> jsstring list \<times> console" where
  "scanFolders root basePath con =
     (case scan root basePath (js ''.'') ([], con) of
        (folders, con') \<Rightarrow> (sort folders, con'))"

section \<open>main (lines 168-235)\<close>

record 'w run = "'w state" +
  processedCount :: nat
  successCount :: nat

text \<open>
  One pass of the loop body, lines 191-215. The result says whether an exception
  left the loop (\<^verbatim>\<open>fs.stat\<close> of line 206 is not inside a \<^verbatim>\<open>try\<close> of its own).
\<close>

definition processFolder ::
  "'w node_env \<Rightarrow> jsstring \<Rightarrow> jsstring \<Rightarrow> jsstring list \<Rightarrow> nat \<Rightarrow> 'w run \<Rightarrow> bool \<times> 'w run"
where
  "processFolder env sourceDir outputDir folders i r =
     (let folderPath = folders ! i;
          fullFolderPath = (if folderPath = js ''.'' then sourceDir else path_join sourceDir folderPath);
          outputFileName = generateFileName folderPath (i + 1);
          outputPath = path_join outputDir outputFileName;
          st1 = say ConsoleLog (Output outputFileName)
                  (say ConsoleLog (Processing (i + 1) (length folders) folderPath)
                     \<lparr>world = world r, console = console r\<rparr>)
      in case getValidPDFs env st1 fullFolderPath of
           (pdfFiles, st2) \<Rightarrow>
             (if length pdfFiles > 0 then
                (case mergePDFs env st2 pdfFiles outputPath of
                   (True, st3) \<Rightarrow>
                     (case stat env (world st3) outputPath of
                        None \<Rightarrow>
                          (True, r\<lparr>world := world st3, console := console st3,
                                   successCount := successCount r + 1\<rparr>)
                      | Some sz \<Rightarrow>
                          (False, r\<lparr>world := world st3,
                                    console := console st3 @ [(ConsoleLog, Success)],
                                    successCount := successCount r + 1,
                                    processedCount := processedCount r + 1\<rparr>))
                 | (False, st3) \<Rightarrow>
                     (False, r\<lparr>world := world st3,
                               console := console st3 @ [(ConsoleLog, FailedToMerge)],
                               processedCount := processedCount r + 1\<rparr>))
              else
                (False, r\<lparr>world := world st2,
                          console := console st2 @ [(ConsoleLog, NoValidPDFsFound)],
                          processedCount := processedCount r + 1\<rparr>)))"

function mainLoop ::
  "'w node_env \<Rightarrow> jsstring \<Rightarrow> jsstring \<Rightarrow> jsstring list \<Rightarrow> nat \<Rightarrow> 'w run \<Rightarrow> bool \<times> 'w run"
where
  "mainLoop env sourceDir outputDir folders i r =
     (if i < length folders then
        (case processFolder env sourceDir outputDir folders i r of
           (True, r') \<Rightarrow> (True, r')
         | (False, r') \<Rightarrow> mainLoop env sourceDir outputDir folders (i + 1) r')
      else (False, r))"
  by pat_completeness auto
termination
  by (relation "measure (\<lambda>(env, sourceDir, outputDir, folders, i, r). length folders - i)") auto

declare mainLoop.simps [simp del]

text \<open>
  \<open>main\<close>: \<open>root\<close> is the tree under \<open>sourceDir\<close> as the scan reads it. The result is
  the exit status (\<open>True\<close>: \<^verbatim>\<open>process.exit(1)\<close> after a fatal error) and the final
  state.
\<close>

definition main :: "'w node_env \<Rightarrow> jsstring \<Rightarrow> item list option \<Rightarrow> 'w \<Rightarrow> bool \<times> 'w run" where
  "main env sourceDir root w =
     (let outputDir = path_join sourceDir OUTPUT_DIR;
          con0 = [(ConsoleLog, Starting sourceDir outputDir)]
      in case mkdir env w outputDir of
           (False, w1) \<Rightarrow>
             (True, \<lparr>world = w1, console = con0 @ [(ConsoleError, FatalError)],
                     processedCount = 0, successCount = 0\<rparr>)
         | (True, w1) \<Rightarrow>
             (case scanFolders root sourceDir (con0 @ [(ConsoleLog, ScanningForFolders)]) of
                (folders, con1) \<Rightarrow>
                  (case mainLoop env sourceDir outputDir folders 0
                          \<lparr>world = w1, console = con1 @ [(ConsoleLog, FoundFolders (length folders))],
                           processedCount = 0, successCount = 0\<rparr> of
                     (True, r) \<Rightarrow> (True, r\<lparr>console := console r @ [(ConsoleError, FatalError)]\<rparr>)
                   | (False, r) \<Rightarrow>
                       (let con2 = console r @
                              [(ConsoleLog, MergeSummary (processedCount r) (successCount r) outputDir)]
                        in case readdir env (world r) outputDir of
                             None \<Rightarrow> (True, r\<lparr>console := con2 @ [(ConsoleError, FatalError)]\<rparr>)
                           | Some outputFiles \<Rightarrow>
                               (False, r\<lparr>console := con2 @
                                  map (\<lambda>file. (ConsoleLog, GeneratedFile file))
                                    (sort (map itemName outputFiles))\<rparr>)))))"

text \<open>
  The names the loop gives to the scanned directories: the directory at position
  \<open>i\<close> (from 0) of the scan result is named with index \<open>i + 1\<close>.
\<close>

definition namingPlan :: "jsstring list \<Rightarrow> jsstring list" where
  "namingPlan folders = map (\<lambda>i. generateFileName (folders ! i) (i + 1)) [0..<length folders]"

definition outputNames :: "console \<Rightarrow> jsstring list" where
  "outputNames con = concat (map (\<lambda>(lvl, msg). case msg of Output n \<Rightarrow> [n] | _ \<Rightarrow> []) con)"

section \<open>Auxiliary definitions for the statements\<close>

text \<open>
  A string that line 17 leaves as it is: read code point by code point, every code
  point is in the class kept. Used to state what \<open>removeSpecial\<close> returns.
\<close>

fun wellKept :: "jsstring \<Rightarrow> bool" where
  "wellKept [] = True"
| "wellKept [c] = keepCp (unat c)"
| "wellKept (h # l # cs) =
     (if isHighSurrogate h \<and> isLowSurrogate l then keepCp (codePoint h l) \<and> wellKept cs
      else keepCp (unat h) \<and> wellKept (l # cs))"

text \<open>
  A directory path as the sequence of its segments: \<open>joinPath\<close> writes the segments
  with \<^verbatim>\<open>/\<close> between them.
\<close>

fun joinPath :: "jsstring list \<Rightarrow> jsstring" where
  "joinPath [] = []"
| "joinPath [s] = s"
| "joinPath (s # t # ss) = s @ 0x2F # joinPath (t # ss)"

text \<open>The number a string of decimal digits denotes, read from the left.\<close>

fun natOf :: "nat \<Rightarrow> jsstring \<Rightarrow> nat" where
  "natOf a [] = a"
| "natOf a (c # cs) = natOf (10 * a + (unat c - 48)) cs"

text \<open>
  What one pass of the loop of lines 45-64 adds to \<^verbatim>\<open>validPDFs\<close> for one entry: the
  entry itself when it is a regular file with the extension whose \<^verbatim>\<open>stat\<close> succeeds
  and gives a size of at least the threshold, nothing otherwise.
\<close>

definition validEntry :: "nat \<Rightarrow> 'w node_env \<Rightarrow> 'w \<Rightarrow> jsstring \<Rightarrow> item \<Rightarrow> pdf_file list" where
  "validEntry minSize env w folderPath item =
     (if isFile item \<and> isPdfName (itemName item) then
        (case stat env w (path_join folderPath (itemName item)) of
           Some sz \<Rightarrow>
             (if sz \<ge> minSize then
                [\<lparr>pdf_name = itemName item, pdf_path = path_join folderPath (itemName item),
                  pdf_size = sz\<rparr>]
              else [])
         | None \<Rightarrow> [])
      else [])"

text \<open>
  An input file fails to import (lines 102-106 throw): it cannot be read, or what is
  read does not load.
\<close>

definition importFails :: "'w node_env \<Rightarrow> 'w \<Rightarrow> pdf_file \<Rightarrow> bool" where
  "importFails env w pdfFile =
     (case readFile env w (pdf_path pdfFile) of
        None \<Rightarrow> True
      | Some pdfBytes \<Rightarrow> PDFDocument_load env pdfBytes = None)"

text \<open>
  The file system after the directory at position \<open>i\<close> of the scan result has been
  handled with the name of its position: unchanged when the directory has no eligible
  file, and otherwise what \<open>mergePDFs\<close> leaves when it is given the directory's eligible
  files and the path of \<open>namingPlan folders ! i\<close> in the output directory.
\<close>

definition mergeAtPlannedName ::
  "'w node_env \<Rightarrow> jsstring \<Rightarrow> jsstring \<Rightarrow> jsstring list \<Rightarrow> 'w \<Rightarrow> nat \<Rightarrow> 'w"
where
  "mergeAtPlannedName env sourceDir outputDir folders w i =
     (let folderPath = folders ! i;
          fullFolderPath = (if folderPath = js ''.'' then sourceDir else path_join sourceDir folderPath);
          pdfFiles = fst (getValidPDFs env \<lparr>world = w, console = []\<rparr> fullFolderPath)
      in if pdfFiles = [] then w
         else world (snd (mergePDFs env \<lparr>world = w, console = []\<rparr> pdfFiles
                (path_join outputDir (namingPlan folders ! i)))))"

section \<open>Example environments\<close>

text \<open>
  A small file system in memory, for concrete runs: the directories that can be listed
  and the files with their contents. A file's size is the length of its contents; a
  document loads when it starts with \<^verbatim>\<open>%\<close> and then has one page; writing and copying
  always succeed and add the file.
\<close>

record memfs =
  listings :: "(jsstring \<times> item list) list"
  files :: "(jsstring \<times> bytes) list"

definition stub_env :: "memfs node_env" where
  "stub_env =
     \<lparr>readdir = (\<lambda>w p. map_of (listings w) p),
      stat = (\<lambda>w p. map_option length (map_of (files w) p)),
      readFile = (\<lambda>w p. map_of (files w) p),
      copyFile = (\<lambda>w src dst.
         case map_of (files w) src of
           None \<Rightarrow> (False, w)
         | Some b \<Rightarrow> (True, w\<lparr>files := (dst, b) # files w\<rparr>)),
      writeFile = (\<lambda>w p b. (True, w\<lparr>files := (p, b) # files w\<rparr>)),
      mkdir = (\<lambda>w p. (True, w)),
      PDFDocument_load = (\<lambda>b.
         case b of [] \<Rightarrow> None | c # _ \<Rightarrow> if c = 0x25 then Some [Page (length b)] else None),
      PDFDocument_save = (\<lambda>pages. Some (0x25 # map (\<lambda>p. case p of Page n \<Rightarrow> of_nat n) pages)),
      localeCompare = (\<lambda>a b. if a < b then - 1 else if a = b then 0 else 1)\<rparr>"

text \<open>A directory with a file of exactly 20 KiB and one a byte smaller.\<close>

definition docs_world :: memfs where
  "docs_world =
     \<lparr>listings = [(js ''/docs'', [FileItem (js ''a.PDF''), FileItem (js ''stub.pdf'')])],
      files = [(js ''/docs/a.PDF'', replicate 20480 0), (js ''/docs/stub.pdf'', replicate 20479 0)]\<rparr>"

text \<open>
  Two eligible files that both fail to import: \<^verbatim>\<open>a.pdf\<close> is 20 KiB of zeros and does
  not load, \<^verbatim>\<open>b.pdf\<close> is gone when it is read.
\<close>

definition corrupt_world :: memfs where
  "corrupt_world = \<lparr>listings = [], files = [(js ''/docs/a.pdf'', 0 # replicate 20479 0)]\<rparr>"

definition corrupt_files :: "pdf_file list" where
  "corrupt_files =
     [\<lparr>pdf_name = js ''a.pdf'', pdf_path = js ''/docs/a.pdf'', pdf_size = 20480\<rparr>,
      \<lparr>pdf_name = js ''b.pdf'', pdf_path = js ''/docs/b.pdf'', pdf_size = 30000\<rparr>]"

text \<open>
  Two scanned directories: \<^verbatim>\<open>A\<close> holds only a 5 KiB stub, \<^verbatim>\<open>B\<close> a document of
  50 KiB.
\<close>

definition example_world :: memfs where
  "example_world =
     \<lparr>listings =
        [(js ''/docs/A'', [FileItem (js ''stub.pdf'')]),
         (js ''/docs/B'', [FileItem (js ''doc2.pdf'')])],
      files =
        [(js ''/docs/A/stub.pdf'', 0x25 # replicate 5119 0),
         (js ''/docs/B/doc2.pdf'', 0x25 # replicate 51199 0)]\<rparr>"

definition example_run :: "memfs run" where
  "example_run = \<lparr>world = example_world, console = [], processedCount = 0, successCount = 0\<rparr>"

text \<open>Two trees: one with a directory whose name starts with \<^verbatim>\<open>(\<close>, one without.\<close>

definition archive_tree :: "item list option" where
  "archive_tree =
     Some [FileItem (js ''overview.pdf''),
           DirItem (js ''(Archive)'') (Some [FileItem (js ''old.pdf'')]),
           DirItem (js ''Guides'') (Some [FileItem (js ''setup.pdf'')])]"

definition guides_tree :: "item list option" where
  "guides_tree =
     Some [FileItem (js ''overview.pdf''),
           DirItem (js ''Guides'') (Some [FileItem (js ''setup.pdf''),
             DirItem (js ''Advanced'') (Some [FileItem (js ''tuning.PDF'')])]),
           DirItem (js ''Empty'') (Some []),
           DirItem (js ''Locked'') None]"

section \<open>Properties of cleanFolderName\<close>

lemma js_simps: "js [] = []" "js (c # cs) = of_nat (of_char c) # js cs"
  by (simp_all add: js_def)

lemmas cls = isSpace_def isSpaceCp_def isHex_def isHexCp_def keepCp_def isWordCp_def
  isEmojiCp_def isHighSurrogate_def isLowSurrogate_def codePoint_def

subsection \<open>The hash suffix\<close>

lemma isHex_not_isSpace: "isHex c \<Longrightarrow> \<not> isSpace c"
  by (auto simp: isHex_def isHexCp_def isSpace_def isSpaceCp_def)

lemma matchHashAt_iff:
  "matchHashAt s \<longleftrightarrow>
     (\<exists>ws hex. s = ws @ hex \<and> ws \<noteq> [] \<and> list_all isSpace ws \<and>
        length hex = 32 \<and> list_all isHex hex)"
proof
  assume m: "matchHashAt s"
  have "s = takeWhile isSpace s @ dropWhile isSpace s" by simp
  moreover have "list_all isSpace (takeWhile isSpace s)"
    by (simp add: list_all_iff) (meson set_takeWhileD)
  ultimately show "\<exists>ws hex. s = ws @ hex \<and> ws \<noteq> [] \<and> list_all isSpace ws \<and>
        length hex = 32 \<and> list_all isHex hex"
    using m unfolding matchHashAt_def by blast
next
  assume "\<exists>ws hex. s = ws @ hex \<and> ws \<noteq> [] \<and> list_all isSpace ws \<and>
        length hex = 32 \<and> list_all isHex hex"
  then obtain ws hex where s: "s = ws @ hex" and ws: "ws \<noteq> []" "list_all isSpace ws"
    and hex: "length hex = 32" "list_all isHex hex" by blast
  from hex obtain h hs where h: "hex = h # hs" by (cases hex) auto
  with hex have "\<not> isSpace h" by (simp add: isHex_not_isSpace)
  with ws h have tw: "takeWhile isSpace (ws @ hex) = ws"
    and dw: "dropWhile isSpace (ws @ hex) = hex"
    by (simp_all add: list_all_iff)
  show "matchHashAt s"
    unfolding matchHashAt_def s tw dw using ws hex by simp
qed

lemma stripHash_strips:
  assumes ws: "ws \<noteq> []" "list_all isSpace ws"
    and hex: "length hex = 32" "list_all isHex hex"
    and pre: "pre = [] \<or> \<not> isSpace (last pre)"
  shows "stripHash (pre @ ws @ hex) = pre"
  using pre
proof (induction pre)
  case Nil
  have "matchHashAt (ws @ hex)" using ws hex matchHashAt_iff by blast
  moreover from ws obtain w ws' where "ws = w # ws'" by (cases ws) auto
  ultimately show ?case by simp
next
  case (Cons c pre)
  have nm: "\<not> matchHashAt (c # pre @ ws @ hex)"
  proof
    assume "matchHashAt (c # pre @ ws @ hex)"
    then obtain ws' hex' where eq: "c # pre @ ws @ hex = ws' @ hex'"
      and ws': "list_all isSpace ws'" and hex': "length hex' = 32"
      using matchHashAt_iff by blast
    from eq hex hex' have "(c # pre @ ws) @ hex = ws' @ hex'" "length hex = length hex'"
      by simp_all
    then have "c # pre @ ws = ws'" by (metis append_eq_append_conv)
    with ws' have "list_all isSpace (c # pre)" by auto
    then have "isSpace (last (c # pre))"
      by (metis last_in_set list.distinct(1) list_all_iff)
    with Cons.prems show False by simp
  qed
  from Cons.prems have "pre = [] \<or> \<not> isSpace (last pre)" by (auto split: if_splits)
  with Cons.IH nm show ?case by simp
qed

lemma stripHash_unchanged:
  assumes "\<not> (\<exists>pre ws hex. s = pre @ ws @ hex \<and> ws \<noteq> [] \<and> list_all isSpace ws \<and>
        length hex = 32 \<and> list_all isHex hex)"
  shows "stripHash s = s"
  using assms
proof (induction s)
  case Nil
  then show ?case by simp
next
  case (Cons c cs)
  have nm: "\<not> matchHashAt (c # cs)"
  proof
    assume "matchHashAt (c # cs)"
    then obtain ws hex where "c # cs = [] @ ws @ hex \<and> ws \<noteq> [] \<and> list_all isSpace ws \<and>
        length hex = 32 \<and> list_all isHex hex"
      using matchHashAt_iff by auto
    with Cons.prems show False by blast
  qed
  have "\<not> (\<exists>pre ws hex. cs = pre @ ws @ hex \<and> ws \<noteq> [] \<and> list_all isSpace ws \<and>
        length hex = 32 \<and> list_all isHex hex)"
  proof
    assume "\<exists>pre ws hex. cs = pre @ ws @ hex \<and> ws \<noteq> [] \<and> list_all isSpace ws \<and>
        length hex = 32 \<and> list_all isHex hex"
    then obtain pre ws hex where "c # cs = (c # pre) @ ws @ hex \<and> ws \<noteq> [] \<and>
        list_all isSpace ws \<and> length hex = 32 \<and> list_all isHex hex" by auto
    with Cons.prems show False by blast
  qed
  with Cons.IH nm show ?case by simp
qed

lemma no_hash_suffix_short:
  "length s < 33 \<Longrightarrow>
   \<not> (\<exists>pre ws hex. s = pre @ ws @ hex \<and> ws \<noteq> [] \<and> list_all isSpace ws \<and>
        length hex = 32 \<and> list_all isHex hex)"
  by (auto simp: neq_Nil_conv)

text \<open>
  C6. The stripping step of line 13. A string that ends in a whitespace run \<open>ws\<close>
  (the whole run: what stands before it does not end in whitespace) followed by exactly
  32 hexadecimal digits \<open>hex\<close> loses exactly \<open>ws @ hex\<close>. A string with no suffix
  made of whitespace and 32 hexadecimal digits is returned unchanged.
\<close>

theorem stripHash_removes_exactly_hash_suffix:
  "(ws \<noteq> [] \<and> list_all isSpace ws \<and> length hex = 32 \<and> list_all isHex hex \<and>
      (pre = [] \<or> \<not> isSpace (last pre))
      \<longrightarrow> stripHash (pre @ ws @ hex) = pre) \<and>
   ((\<nexists>pre' ws' hex'. s = pre' @ ws' @ hex' \<and> ws' \<noteq> [] \<and> list_all isSpace ws' \<and>
        length hex' = 32 \<and> list_all isHex hex')
      \<longrightarrow> stripHash s = s)"
  using stripHash_strips[of ws hex pre] stripHash_unchanged[of s] by blast

theorem stripHash_removes_exactly_hash_suffix_witness:
  "list_all isSpace (js '' '') \<and>
   length (js ''21c539b101a3801ca187c6e9ede5a0ee'') = 32 \<and>
   list_all isHex (js ''21c539b101a3801ca187c6e9ede5a0ee'') \<and>
   \<not> isSpace (last (js ''Catio Academy'')) \<and>
   stripHash (js ''Catio Academy 21c539b101a3801ca187c6e9ede5a0ee'') = js ''Catio Academy'' \<and>
   (\<nexists>pre' ws' hex'. js ''Getting Started'' = pre' @ ws' @ hex' \<and> ws' \<noteq> [] \<and>
        list_all isSpace ws' \<and> length hex' = 32 \<and> list_all isHex hex') \<and>
   stripHash (js ''Getting Started'') = js ''Getting Started''"
proof -
  have h1: "js '' '' \<noteq> [] \<and> list_all isSpace (js '' '') \<and>
      length (js ''21c539b101a3801ca187c6e9ede5a0ee'') = 32 \<and>
      list_all isHex (js ''21c539b101a3801ca187c6e9ede5a0ee'') \<and>
      \<not> isSpace (last (js ''Catio Academy''))"
    by (simp add: js_simps cls)
  have h2: "\<nexists>pre' ws' hex'. js ''Getting Started'' = pre' @ ws' @ hex' \<and> ws' \<noteq> [] \<and>
        list_all isSpace ws' \<and> length hex' = 32 \<and> list_all isHex hex'"
    by (rule no_hash_suffix_short) (simp add: js_simps)
  have e: "js ''Catio Academy'' @ js '' '' @ js ''21c539b101a3801ca187c6e9ede5a0ee''
      = js ''Catio Academy 21c539b101a3801ca187c6e9ede5a0ee''"
    by (simp add: js_simps)
  from stripHash_removes_exactly_hash_suffix
    [of "js '' ''" "js ''21c539b101a3801ca187c6e9ede5a0ee''" "js ''Catio Academy''"
        "js ''Getting Started''"]
  have "stripHash (js ''Catio Academy'' @ js '' '' @ js ''21c539b101a3801ca187c6e9ede5a0ee'')
      = js ''Catio Academy'' \<and> stripHash (js ''Getting Started'') = js ''Getting Started''"
    using h1 h2 by blast
  with h1 h2 e show ?thesis by simp
qed

subsection \<open>The order of collapsing and trimming\<close>

text \<open>
  C2. Line 18 turns every whitespace run into an underscore before line 19 trims, so
  whitespace at either end, in the name itself or left there by the removal of line 17,
  comes out as an underscore: \<^verbatim>\<open>cleanFolderName('  My Folder  ')\<close> is
  \<^verbatim>\<open>'_My_Folder_'\<close> and \<^verbatim>\<open>cleanFolderName('- Archive')\<close> is \<^verbatim>\<open>'_Archive'\<close>.
\<close>

theorem cleanFolderName_outer_whitespace:
  "cleanFolderName (js ''  My Folder  '') = js ''_My_Folder_'' \<and>
   cleanFolderName (js ''- Archive'') = js ''_Archive''"
  by (simp add: cleanFolderName_def js_simps matchHashAt_def trim_def cls)

subsection \<open>Idempotence\<close>

lemma underscore_not_space: "\<not> isSpace 0x5F"
  by (simp add: isSpace_def isSpaceCp_def)

lemma collapseSpaces_no_space: "c \<in> set (collapseSpaces s) \<Longrightarrow> \<not> isSpace c"
  by (induction s rule: collapseSpaces.induct) (auto simp: underscore_not_space split: if_splits)

lemma dropWhile_none: "\<forall>c\<in>set t. \<not> P c \<Longrightarrow> dropWhile P t = t"
  by (cases t) auto

lemma trim_no_space: "\<forall>c\<in>set s. \<not> isSpace c \<Longrightarrow> trim s = s"
  by (simp add: trim_def dropWhile_none)

lemma stripHash_no_space: "\<forall>c\<in>set s. \<not> isSpace c \<Longrightarrow> stripHash s = s"
  by (induction s) (auto simp: matchHashAt_def)

lemma collapseSpaces_no_space_id: "\<forall>c\<in>set s. \<not> isSpace c \<Longrightarrow> collapseSpaces s = s"
  by (induction s) auto

lemma keepCp_not_surrogate:
  "keepCp (unat (c::jschar)) \<Longrightarrow> \<not> isHighSurrogate c \<and> \<not> isLowSurrogate c"
proof -
  have "unat c < 2 ^ 16" using unsigned_less[of c, where 'a = nat] by simp
  then have "unat c < 65536" by simp
  moreover assume "keepCp (unat c)"
  ultimately show ?thesis by (auto simp: cls)
qed

lemma surrogate_not_space:
  "isHighSurrogate c \<or> isLowSurrogate c \<Longrightarrow> \<not> isSpace c"
  by (auto simp: cls)

lemma wellKept_Cons:
  "\<not> isHighSurrogate c \<Longrightarrow> wellKept (c # cs) \<longleftrightarrow> keepCp (unat c) \<and> wellKept cs"
  by (cases cs) auto

lemma removeSpecial_Cons:
  "\<not> isHighSurrogate c \<Longrightarrow>
   removeSpecial (c # cs) = (if keepCp (unat c) then c # removeSpecial cs else removeSpecial cs)"
  by (cases cs) auto

lemma wellKept_removeSpecial: "wellKept (removeSpecial s)"
  by (induction s rule: removeSpecial.induct)
     (auto simp: wellKept_Cons keepCp_not_surrogate)

lemma removeSpecial_wellKept: "wellKept s \<Longrightarrow> removeSpecial s = s"
  by (induction s rule: removeSpecial.induct) (auto split: if_splits)

lemma wellKept_dropWhile: "wellKept s \<Longrightarrow> wellKept (dropWhile isSpace s)"
proof (induction s)
  case Nil
  then show ?case by simp
next
  case (Cons c cs)
  show ?case
  proof (cases "isSpace c")
    case True
    then have "\<not> isHighSurrogate c" using surrogate_not_space by blast
    with Cons True show ?thesis by (simp add: wellKept_Cons)
  next
    case False
    with Cons show ?thesis by simp
  qed
qed

lemma underscore_kept: "keepCp 95" "\<not> isHighSurrogate 0x5F"
  by (simp_all add: cls)

lemma wellKept_collapseSpaces: "wellKept s \<Longrightarrow> wellKept (collapseSpaces s)"
proof (induction s rule: length_induct)
  case (1 s)
  show ?case
  proof (cases s)
    case Nil
    then show ?thesis by simp
  next
    case (Cons c cs)
    show ?thesis
    proof (cases "isSpace c")
      case True
      then have nh: "\<not> isHighSurrogate c" using surrogate_not_space by blast
      with 1(2) Cons have "wellKept cs" by (simp add: wellKept_Cons)
      then have "wellKept (dropWhile isSpace cs)" by (rule wellKept_dropWhile)
      moreover have "length (dropWhile isSpace cs) < length s"
        using Cons length_dropWhile_le[of isSpace cs] by simp
      ultimately have "wellKept (collapseSpaces (dropWhile isSpace cs))" using 1(1) by blast
      with True Cons show ?thesis by (simp add: wellKept_Cons underscore_kept)
    next
      case False
      note nsp = False
      show ?thesis
      proof (cases "isHighSurrogate c \<and> (\<exists>l t. cs = l # t \<and> isLowSurrogate l)")
        case True
        then obtain l t where cs: "cs = l # t" and hl: "isHighSurrogate c" "isLowSurrogate l"
          by blast
        from hl have nl: "\<not> isSpace l" using surrogate_not_space by blast
        from 1(2) Cons cs hl have k: "keepCp (codePoint c l)" and wt: "wellKept t" by simp_all
        have "length t < length s" using Cons cs by simp
        with wt 1(1) have "wellKept (collapseSpaces t)" by blast
        with k hl nsp nl Cons cs show ?thesis by simp
      next
        case False
        have kc: "keepCp (unat c) \<and> wellKept cs"
        proof (cases cs)
          case Nil
          with 1(2) Cons show ?thesis by simp
        next
          case (Cons l t)
          with False have "\<not> (isHighSurrogate c \<and> isLowSurrogate l)" by simp
          with 1(2) \<open>s = c # cs\<close> Cons show ?thesis by auto
        qed
        then have nh: "\<not> isHighSurrogate c" using keepCp_not_surrogate by blast
        have "length cs < length s" using Cons by simp
        with kc 1(1) have "wellKept (collapseSpaces cs)" by blast
        with kc nh nsp Cons show ?thesis by (simp add: wellKept_Cons)
      qed
    qed
  qed
qed

text \<open>The final \<^verbatim>\<open>trim\<close> of line 19 never removes anything.\<close>

lemma cleanFolderName_alt:
  "cleanFolderName x = collapseSpaces (removeSpecial (stripHash x))"
  unfolding cleanFolderName_def Let_def
  by (rule trim_no_space) (simp add: collapseSpaces_no_space)

lemma cleanFolderName_no_space: "c \<in> set (cleanFolderName x) \<Longrightarrow> \<not> isSpace c"
  by (simp add: cleanFolderName_alt collapseSpaces_no_space)

text \<open>
  C7. \<open>cleanFolderName\<close> is idempotent. A sanitized name holds no whitespace, so it
  never ends in a further hash suffix: the equation holds for every input.
\<close>

theorem cleanFolderName_idempotent:
  "cleanFolderName (cleanFolderName x) = cleanFolderName x"
proof -
  let ?r = "collapseSpaces (removeSpecial (stripHash x))"
  have ns: "\<forall>c\<in>set ?r. \<not> isSpace c" by (simp add: collapseSpaces_no_space)
  have wk: "wellKept ?r" by (intro wellKept_collapseSpaces wellKept_removeSpecial)
  have "cleanFolderName ?r = collapseSpaces (removeSpecial (stripHash ?r))"
    by (rule cleanFolderName_alt)
  also have "stripHash ?r = ?r" using ns by (rule stripHash_no_space)
  also have "removeSpecial ?r = ?r" using wk by (rule removeSpecial_wellKept)
  also have "collapseSpaces ?r = ?r" using ns by (rule collapseSpaces_no_space_id)
  finally show ?thesis by (simp add: cleanFolderName_alt)
qed

section \<open>Properties of generateFileName\<close>

lemma String_nat_small: "n < 10 \<Longrightarrow> String_nat n = [digit n]"
  by (subst String_nat.simps) simp

lemma String_nat_large: "10 \<le> n \<Longrightarrow> String_nat n = String_nat (n div 10) @ [digit (n mod 10)]"
  by (subst String_nat.simps) simp

lemma unat_digit: "d < 10 \<Longrightarrow> unat (digit d) = 48 + d"
proof -
  assume d: "d < 10"
  have "unat (of_nat (48 + d) :: 16 word) = (48 + d) mod 2 ^ 16"
    unfolding unat_of_nat by simp
  also have "\<dots> = 48 + d" using d by simp
  finally show ?thesis unfolding digit_def by simp
qed

lemma natOf_snoc: "natOf a (s @ [c]) = 10 * natOf a s + (unat c - 48)"
  by (induction s arbitrary: a) simp_all

lemma natOf_String_nat: "natOf 0 (String_nat n) = n"
proof (induction n rule: String_nat.induct)
  case (1 n)
  show ?case
  proof (cases "n < 10")
    case True
    then show ?thesis by (simp add: unat_digit String_nat_small)
  next
    case False
    with 1 have "natOf 0 (String_nat (n div 10)) = n div 10" by simp
    with False show ?thesis
      by (simp add: natOf_snoc unat_digit String_nat_large)
  qed
qed

lemma natOf_zeros: "natOf 0 (replicate k 0x30 @ s) = natOf 0 s"
  by (induction k) simp_all

lemma natOf_padStart: "natOf 0 (padStart 2 0x30 (String_nat n)) = n"
  by (simp add: padStart_def natOf_zeros natOf_String_nat)

lemma String_nat_digits: "c \<in> set (String_nat n) \<Longrightarrow> 48 \<le> unat c \<and> unat c \<le> 57"
proof (induction n rule: String_nat.induct)
  case (1 n)
  show ?case
  proof (cases "n < 10")
    case True
    with 1(2) show ?thesis by (simp add: unat_digit String_nat_small)
  next
    case False
    from 1(2) False have "c \<in> set (String_nat (n div 10)) \<or> c = digit (n mod 10)"
      by (auto simp: String_nat_large)
    with 1(1) False show ?thesis by (auto simp: unat_digit)
  qed
qed

lemma padStart_digits: "c \<in> set (padStart 2 0x30 (String_nat n)) \<Longrightarrow> c \<noteq> 0x2D"
  using String_nat_digits[of c n] by (auto simp: padStart_def)


lemma split_no_sep: "sep \<notin> set s \<Longrightarrow> split sep s = [s]"
  by (induction s) auto

lemma split_append_sep: "sep \<notin> set s \<Longrightarrow> split sep (s @ sep # t) = s # split sep t"
  by (induction s) auto

lemma split_joinPath:
  "segs \<noteq> [] \<Longrightarrow> \<forall>s\<in>set segs. 0x2F \<notin> set s \<Longrightarrow> split 0x2F (joinPath segs) = segs"
  by (induction segs rule: joinPath.induct) (simp_all add: split_no_sep split_append_sep)

lemma last_two_cases: "xs = [] \<or> (\<exists>c. xs = [c]) \<or> (\<exists>pre a b. xs = pre @ [a, b])"
proof (cases xs rule: rev_cases)
  case Nil
  then show ?thesis by simp
next
  case (snoc ys b)
  then show ?thesis by (cases ys rule: rev_cases) auto
qed

lemma by_length_eq_by_rev:
  "(if length cp = 0 then A
    else if length cp = 1 then B (cp ! 0)
    else C (cp ! (length cp - 2)) (cp ! (length cp - 1))) =
   (case rev cp of [] \<Rightarrow> A | [c] \<Rightarrow> B c | child # parent # _ \<Rightarrow> C parent child)"
  using last_two_cases[of cp] by (auto simp: nth_append)

lemma generateFileName_cases:
  "generateFileName folderPath index =
     padStart 2 0x30 (String_nat index) @ js ''-'' @
       (case rev (map cleanFolderName (filter (\<lambda>part. part \<noteq> js ''.'') (split 0x2F folderPath))) of
          [] \<Rightarrow> js ''Root''
        | [c] \<Rightarrow> c
        | child # parent # _ \<Rightarrow> parent @ js ''-'' @ child) @ js ''.pdf''"
proof -
  let ?cp = "map cleanFolderName (filter (\<lambda>part. part \<noteq> js ''.'') (split 0x2F folderPath))"
  let ?pad = "padStart 2 0x30 (String_nat index)"
  have "generateFileName folderPath index =
      (case rev ?cp of
         [] \<Rightarrow> ?pad @ js ''-Root.pdf''
       | [c] \<Rightarrow> ?pad @ js ''-'' @ c @ js ''.pdf''
       | child # parent # _ \<Rightarrow> ?pad @ js ''-'' @ parent @ js ''-'' @ child @ js ''.pdf'')"
    unfolding generateFileName_def Let_def
    by (rule by_length_eq_by_rev
          [of ?cp "?pad @ js ''-Root.pdf''" "\<lambda>c. ?pad @ js ''-'' @ c @ js ''.pdf''"
              "\<lambda>parent child. ?pad @ js ''-'' @ parent @ js ''-'' @ child @ js ''.pdf''"])
  then show ?thesis by (simp add: js_simps split: list.splits)
qed

text \<open>
  C5. For a path made of the segments \<open>segs\<close> (none holds a separator), the name depends
  on the segments other than \<^verbatim>\<open>.\<close> only: none gives \<^verbatim>\<open>{paddedIndex}-Root.pdf\<close>, one
  gives \<^verbatim>\<open>{paddedIndex}-{segment}.pdf\<close>, two or more give
  \<^verbatim>\<open>{paddedIndex}-{parent}-{child}.pdf\<close> from the last two, whatever stands before
  them; each segment used is sanitized by \<open>cleanFolderName\<close>.
\<close>

theorem generateFileName_segments:
  assumes "segs \<noteq> []" and "\<forall>s\<in>set segs. 0x2F \<notin> set s"
  shows "(filter (\<lambda>part. part \<noteq> js ''.'') segs = [] \<longrightarrow>
           generateFileName (joinPath segs) index =
             padStart 2 0x30 (String_nat index) @ js ''-Root.pdf'') \<and>
         (\<forall>a. filter (\<lambda>part. part \<noteq> js ''.'') segs = [a] \<longrightarrow>
           generateFileName (joinPath segs) index =
             padStart 2 0x30 (String_nat index) @ js ''-'' @ cleanFolderName a @ js ''.pdf'') \<and>
         (\<forall>pre a b. filter (\<lambda>part. part \<noteq> js ''.'') segs = pre @ [a, b] \<longrightarrow>
           generateFileName (joinPath segs) index =
             padStart 2 0x30 (String_nat index) @ js ''-'' @ cleanFolderName a @ js ''-'' @
               cleanFolderName b @ js ''.pdf'')"
  using assms by (auto simp: generateFileName_cases split_joinPath js_simps)


theorem generateFileName_segments_witness:
  "generateFileName (js ''.'') 1 = js ''01-Root.pdf'' \<and>
   generateFileName (js ''Getting Started 230539b101a3808eb8f3d4162872cf5c'') 7 =
     js ''07-Getting_Started.pdf'' \<and>
   generateFileName (js ''Docs/Getting Started/Key Benefits'') 12 =
     js ''12-Getting_Started-Key_Benefits.pdf''"
proof -
  have 1: "generateFileName (js ''.'') 1 = padStart 2 0x30 (String_nat 1) @ js ''-Root.pdf''"
    using generateFileName_segments[of "[js ''.'']" 1] by (simp add: js_simps)
  have 2: "generateFileName (js ''Getting Started 230539b101a3808eb8f3d4162872cf5c'') 7 =
      padStart 2 0x30 (String_nat 7) @ js ''-'' @
        cleanFolderName (js ''Getting Started 230539b101a3808eb8f3d4162872cf5c'') @ js ''.pdf''"
    using generateFileName_segments
      [of "[js ''Getting Started 230539b101a3808eb8f3d4162872cf5c'']" 7]
    by (simp add: js_simps)
  have 3: "generateFileName (js ''Docs/Getting Started/Key Benefits'') 12 =
      padStart 2 0x30 (String_nat 12) @ js ''-'' @ cleanFolderName (js ''Getting Started'') @
        js ''-'' @ cleanFolderName (js ''Key Benefits'') @ js ''.pdf''"
  proof -
    have "filter (\<lambda>part. part \<noteq> js ''.'')
        [js ''Docs'', js ''Getting Started'', js ''Key Benefits''] =
        [js ''Docs''] @ [js ''Getting Started'', js ''Key Benefits'']"
      by (simp add: js_simps)
    moreover have "joinPath [js ''Docs'', js ''Getting Started'', js ''Key Benefits''] =
        js ''Docs/Getting Started/Key Benefits''"
      by (simp add: js_simps)
    ultimately show ?thesis
      using generateFileName_segments
        [of "[js ''Docs'', js ''Getting Started'', js ''Key Benefits'']" 12]
      by (simp add: js_simps)
  qed
  have c2: "cleanFolderName (js ''Getting Started 230539b101a3808eb8f3d4162872cf5c'') =
      js ''Getting_Started''"
    by (simp add: cleanFolderName_def js_simps matchHashAt_def trim_def cls)
  have c3: "cleanFolderName (js ''Getting Started'') = js ''Getting_Started''"
    "cleanFolderName (js ''Key Benefits'') = js ''Key_Benefits''"
    by (simp_all add: cleanFolderName_def js_simps matchHashAt_def trim_def cls)
  have p: "padStart 2 0x30 (String_nat 1) = js ''01''" "padStart 2 0x30 (String_nat 7) = js ''07''"
    "padStart 2 0x30 (String_nat 12) = js ''12''"
    by (simp_all add: padStart_def digit_def String_nat_small String_nat_large js_simps)
  show ?thesis unfolding 1 2 3 c2 c3 p by (simp add: js_simps)
qed

subsection \<open>Output names differ\<close>

lemma generateFileName_prefix:
  "\<exists>rest. generateFileName p i = padStart 2 0x30 (String_nat i) @ 0x2D # rest"
  by (simp add: generateFileName_cases js_simps)

lemma index_of_generateFileName:
  "natOf 0 (takeWhile (\<lambda>c. c \<noteq> 0x2D) (generateFileName p i)) = i"
proof -
  obtain rest where r: "generateFileName p i = padStart 2 0x30 (String_nat i) @ 0x2D # rest"
    using generateFileName_prefix by blast
  have "takeWhile (\<lambda>c. c \<noteq> 0x2D) (padStart 2 0x30 (String_nat i) @ 0x2D # rest) =
      padStart 2 0x30 (String_nat i)"
    by (rule takeWhile_tail[THEN trans, rotated])
       (auto simp: takeWhile_eq_all_conv padStart_digits)
  with r show ?thesis by (simp add: natOf_padStart)
qed

lemma set_collapseSpaces: "c \<in> set (collapseSpaces s) \<Longrightarrow> c = 0x5F \<or> c \<in> set s"
  by (induction s rule: collapseSpaces.induct) (auto split: if_splits dest: set_dropWhileD)

lemma wellKept_members:
  "wellKept s \<Longrightarrow> c \<in> set s \<Longrightarrow> keepCp (unat c) \<or> isHighSurrogate c \<or> isLowSurrogate c"
  by (induction s rule: wellKept.induct) (auto split: if_splits)

lemma hyphen_not_kept:
  "\<not> keepCp (unat (0x2D::jschar))" "\<not> isHighSurrogate 0x2D" "\<not> isLowSurrogate 0x2D"
  by (simp_all add: cls)

lemma hyphen_not_in_cleanFolderName: "0x2D \<notin> set (cleanFolderName s)"
proof
  assume "0x2D \<in> set (cleanFolderName s)"
  then have "0x2D \<in> set (collapseSpaces (removeSpecial (stripHash s)))"
    by (simp add: cleanFolderName_alt)
  then have "0x2D \<in> set (removeSpecial (stripHash s))"
    using set_collapseSpaces by fastforce
  with wellKept_members[OF wellKept_removeSpecial] hyphen_not_kept show False by blast
qed

lemma distinct_namingPlan: "distinct (namingPlan folders)"
proof -
  have "inj_on (\<lambda>i. generateFileName (folders ! i) (i + 1)) (set [0..<length folders])"
  proof (rule inj_onI)
    fix i j
    assume "generateFileName (folders ! i) (i + 1) = generateFileName (folders ! j) (j + 1)"
    then have "i + 1 = j + 1" by (metis index_of_generateFileName)
    then show "i = j" by simp
  qed
  then show ?thesis by (simp add: namingPlan_def distinct_map)
qed

text \<open>
  C10. Names generated with different indices differ, whatever the paths: the name
  starts with the padded index, which is made of digits and ends at the first
  \<^verbatim>\<open>-\<close>, and the index can be read back from it. A sanitized segment holds no
  \<^verbatim>\<open>-\<close>. The names the loop of \<open>main\<close> gives to the scanned directories are
  pairwise different, so no artifact of a run is overwritten by another directory's.
\<close>

theorem output_names_unique:
  "(i \<noteq> j \<longrightarrow> generateFileName p i \<noteq> generateFileName q j) \<and>
   0x2D \<notin> set (cleanFolderName s) \<and>
   distinct (namingPlan folders)"
  using index_of_generateFileName[of p i] index_of_generateFileName[of q j]
    hyphen_not_in_cleanFolderName[of s] distinct_namingPlan[of folders]
  by auto

theorem output_names_unique_witness:
  "(1::nat) \<noteq> 2 \<and> generateFileName (js ''A/B'') 1 \<noteq> generateFileName (js ''A/B'') 2"
  using output_names_unique[of 1 2 "js ''A/B''" "js ''A/B''" "[]" "[]"] by simp

section \<open>Properties of getValidPDFs\<close>

lemma set_insertBy: "set (insertBy cmp x ys) = insert x (set ys)"
  by (induction ys) auto

lemma set_sortBy: "set (sortBy cmp xs) = set xs"
  by (induction xs) (simp_all add: sortBy_def set_insertBy)

lemma world_say: "world (say lvl msg st) = world st"
  by (simp add: say_def)

lemma fst_collectPDFs:
  "fst (collectPDFs minSize env folderPath items (validPDFs, st)) =
     validPDFs @ concat (map (validEntry minSize env (world st) folderPath) items)"
  by (induction items arbitrary: validPDFs st)
     (simp_all add: validEntry_def Let_def world_say split: option.splits)

lemma world_collectPDFs:
  "world (snd (collectPDFs minSize env folderPath items (validPDFs, st))) = world st"
  by (induction items arbitrary: validPDFs st)
     (simp_all add: Let_def world_say split: option.splits)

lemma set_getValidPDFsWith:
  "readdir env (world st) folderPath = Some items \<Longrightarrow>
   set (fst (getValidPDFsWith minSize env st folderPath)) =
     (\<Union>item\<in>set items. set (validEntry minSize env (world st) folderPath item))"
  using fst_collectPDFs[of minSize env folderPath items "[]" st]
  by (auto simp: getValidPDFsWith_def set_sortBy split: prod.splits)

lemma path_join_inject: "path_join a b = path_join a c \<longleftrightarrow> b = c"
  by (simp add: path_join_def)

lemma validEntry_member:
  "f \<in> set (validEntry minSize env w folderPath item) \<Longrightarrow>
   pdf_path f = path_join folderPath (itemName item) \<and>
   stat env w (path_join folderPath (itemName item)) = Some (pdf_size f) \<and> minSize \<le> pdf_size f"
  apply (simp only: validEntry_def)
  apply (cases "isFile item \<and> isPdfName (itemName item)")
   apply (cases "stat env w (path_join folderPath (itemName item))")
    apply simp
   apply (simp split: if_splits)
  apply simp
  done

text \<open>
  C8. The size test of line 51 is \<^verbatim>\<open>stats.size >= MIN_FILE_SIZE\<close>: for every listing
  and every threshold, a regular \<^verbatim>\<open>.pdf\<close> file whose size is one byte below the
  threshold is not among the files returned, and one whose size is exactly the
  threshold is.
\<close>

theorem size_threshold:
  assumes "readdir env (world st) folderPath = Some items"
    and "FileItem n \<in> set items" and "isPdfName n"
    and "stat env (world st) (path_join folderPath n) = Some sz"
  shows "(sz + 1 = minSize \<longrightarrow>
            path_join folderPath n \<notin> pdf_path ` set (fst (getValidPDFsWith minSize env st folderPath))) \<and>
         (sz = minSize \<longrightarrow>
            \<lparr>pdf_name = n, pdf_path = path_join folderPath n, pdf_size = sz\<rparr>
              \<in> set (fst (getValidPDFsWith minSize env st folderPath)))"
proof (intro conjI impI)
  assume lt: "sz + 1 = minSize"
  show "path_join folderPath n \<notin> pdf_path ` set (fst (getValidPDFsWith minSize env st folderPath))"
  proof
    assume "path_join folderPath n \<in> pdf_path ` set (fst (getValidPDFsWith minSize env st folderPath))"
    then obtain f item where f: "f \<in> set (validEntry minSize env (world st) folderPath item)"
      and p: "pdf_path f = path_join folderPath n"
      using set_getValidPDFsWith[OF assms(1), of minSize] by auto
    from validEntry_member[OF f] p assms(4) lt show False by (auto simp: path_join_inject)
  qed
next
  assume "sz = minSize"
  with assms have "\<lparr>pdf_name = n, pdf_path = path_join folderPath n, pdf_size = sz\<rparr>
      \<in> set (validEntry minSize env (world st) folderPath (FileItem n))"
    by (simp add: validEntry_def)
  with assms(2) show "\<lparr>pdf_name = n, pdf_path = path_join folderPath n, pdf_size = sz\<rparr>
      \<in> set (fst (getValidPDFsWith minSize env st folderPath))"
    using set_getValidPDFsWith[OF assms(1), of minSize] by blast
qed


theorem size_threshold_witness:
  "js ''/docs/stub.pdf'' \<notin>
     pdf_path ` set (fst (getValidPDFs stub_env \<lparr>world = docs_world, console = []\<rparr> (js ''/docs''))) \<and>
   \<lparr>pdf_name = js ''a.PDF'', pdf_path = js ''/docs/a.PDF'', pdf_size = 20480\<rparr>
     \<in> set (fst (getValidPDFs stub_env \<lparr>world = docs_world, console = []\<rparr> (js ''/docs'')))"
proof -
  let ?st = "\<lparr>world = docs_world, console = []\<rparr>"
  let ?items = "[FileItem (js ''a.PDF''), FileItem (js ''stub.pdf'')]"
  have rd: "readdir stub_env (world ?st) (js ''/docs'') = Some ?items"
    by (simp add: stub_env_def docs_world_def)
  have pj: "path_join (js ''/docs'') (js ''stub.pdf'') = js ''/docs/stub.pdf''"
    "path_join (js ''/docs'') (js ''a.PDF'') = js ''/docs/a.PDF''"
    by (simp_all add: path_join_def js_simps)
  have nm: "isPdfName (js ''stub.pdf'')" "isPdfName (js ''a.PDF'')"
    by (simp_all add: isPdfName_def toLowerAscii_def js_simps)
  have s1: "stat stub_env (world ?st) (path_join (js ''/docs'') (js ''stub.pdf'')) = Some 20479"
    unfolding pj by (simp add: stub_env_def docs_world_def js_simps)
  have s2: "stat stub_env (world ?st) (path_join (js ''/docs'') (js ''a.PDF'')) = Some 20480"
    unfolding pj by (simp add: stub_env_def docs_world_def js_simps)
  have m: "20479 + 1 = MIN_FILE_SIZE" "20480 = MIN_FILE_SIZE"
    by (simp_all add: MIN_FILE_SIZE_def)
  from size_threshold[OF rd _ nm(1) s1, of MIN_FILE_SIZE] m(1)
  have a: "js ''/docs/stub.pdf'' \<notin> pdf_path ` set (fst (getValidPDFs stub_env ?st (js ''/docs'')))"
    by (simp add: pj getValidPDFs_def)
  from size_threshold[OF rd _ nm(2) s2, of MIN_FILE_SIZE] m(2)
  have b: "\<lparr>pdf_name = js ''a.PDF'', pdf_path = js ''/docs/a.PDF'', pdf_size = 20480\<rparr>
     \<in> set (fst (getValidPDFs stub_env ?st (js ''/docs'')))"
    by (simp add: pj getValidPDFs_def)
  from a b show ?thesis by blast
qed

section \<open>Properties of mergePDFs\<close>

lemma console_say: "console (say lvl msg st) = console st @ [(lvl, msg)]"
  by (simp add: say_def)

lemma importAll_all_fail:
  "\<forall>f\<in>set pdfFiles. importFails env w f \<Longrightarrow>
   fst (importAll env w pdfFiles (mergedPdf, con)) = mergedPdf"
  by (induction pdfFiles arbitrary: con)
     (auto simp: importFails_def Let_def split: option.splits)

text \<open>
  C1, as amended. When every input of a set of two or more files fails to import,
  \<open>mergePDFs\<close> still saves the merged document, which holds no imported page, and
  writes it to the output path. It reports success exactly when saving and writing
  succeed, and failure only when one of them throws; the file system is then as the
  failed write left it.
\<close>

theorem merge_all_failed:
  assumes "2 \<le> length pdfFiles" and "\<forall>f\<in>set pdfFiles. importFails env (world st) f"
  shows "fst (mergePDFs env st pdfFiles outputPath) =
           (case PDFDocument_save env [] of
              None \<Rightarrow> False
            | Some pdfBytes \<Rightarrow> fst (writeFile env (world st) outputPath pdfBytes)) \<and>
         world (snd (mergePDFs env st pdfFiles outputPath)) =
           (case PDFDocument_save env [] of
              None \<Rightarrow> world st
            | Some pdfBytes \<Rightarrow> snd (writeFile env (world st) outputPath pdfBytes))"
proof -
  obtain mergedPdf con where ia: "importAll env (world st) pdfFiles ([], console st) = (mergedPdf, con)"
    by (cases "importAll env (world st) pdfFiles ([], console st)")
  with importAll_all_fail[OF assms(2), of "[]" "console st"] have m: "mergedPdf = []" by simp
  from assms(1) have l: "length pdfFiles \<noteq> 0" "length pdfFiles \<noteq> 1" by auto
  show ?thesis
  proof (cases "PDFDocument_save env []")
    case None
    with ia m l show ?thesis by (simp add: mergePDFs_def world_say)
  next
    case (Some pdfBytes)
    obtain ok w' where w: "writeFile env (world st) outputPath pdfBytes = (ok, w')"
      by (cases "writeFile env (world st) outputPath pdfBytes")
    with Some ia m l show ?thesis by (cases ok) (simp_all add: mergePDFs_def world_say)
  qed
qed

lemma corrupt_files_fail:
  "\<forall>f\<in>set corrupt_files. importFails stub_env corrupt_world f"
  by (simp add: corrupt_files_def importFails_def stub_env_def corrupt_world_def js_simps)

text \<open>
  C1 as stated fails: both files of \<open>corrupt_files\<close> fail to import, and the merge
  reports success and writes an artifact with no imported page.
\<close>

theorem merge_all_failed_counterexample:
  "length corrupt_files = 2 \<and>
   importFails stub_env corrupt_world (corrupt_files ! 0) \<and>
   importFails stub_env corrupt_world (corrupt_files ! 1) \<and>
   fst (mergePDFs stub_env \<lparr>world = corrupt_world, console = []\<rparr> corrupt_files
          (js ''/docs/output/01-docs.pdf'')) = True \<and>
   readFile stub_env
     (world (snd (mergePDFs stub_env \<lparr>world = corrupt_world, console = []\<rparr> corrupt_files
          (js ''/docs/output/01-docs.pdf''))))
     (js ''/docs/output/01-docs.pdf'') = Some [0x25]"
  by (simp add: corrupt_files_def importFails_def stub_env_def corrupt_world_def js_simps
      mergePDFs_def say_def)

theorem merge_all_failed_witness:
  "2 \<le> length corrupt_files \<and>
   fst (mergePDFs stub_env \<lparr>world = corrupt_world, console = []\<rparr> corrupt_files
          (js ''/docs/output/01-docs.pdf'')) = True \<and>
   files (world (snd (mergePDFs stub_env \<lparr>world = corrupt_world, console = []\<rparr> corrupt_files
          (js ''/docs/output/01-docs.pdf'')))) =
     (js ''/docs/output/01-docs.pdf'', [0x25]) # files corrupt_world"
proof -
  have l: "2 \<le> length corrupt_files" by (simp add: corrupt_files_def)
  have f: "\<forall>f\<in>set corrupt_files. importFails stub_env (world \<lparr>world = corrupt_world, console = []\<rparr>) f"
    using corrupt_files_fail by simp
  from merge_all_failed[OF l f, of "js ''/docs/output/01-docs.pdf''"] l
  show ?thesis by (simp add: stub_env_def)
qed

section \<open>Properties of main\<close>

lemma outputNames_append: "outputNames (a @ b) = outputNames a @ outputNames b"
  by (simp add: outputNames_def)

lemma outputNames_Nil: "outputNames [] = []"
  by (simp add: outputNames_def)

lemma outputNames_say:
  "outputNames (console (say lvl msg st)) =
     outputNames (console st) @ (case msg of Output n \<Rightarrow> [n] | _ \<Rightarrow> [])"
  by (simp add: say_def outputNames_def)

lemma outputNames_collectPDFs:
  "outputNames (console (snd (collectPDFs minSize env folderPath items (validPDFs, st)))) =
     outputNames (console st)"
  by (induction items arbitrary: validPDFs st)
     (simp_all add: Let_def outputNames_say split: option.splits)

lemma outputNames_getValidPDFs:
  "outputNames (console (snd (getValidPDFs env st folderPath))) = outputNames (console st)"
proof (cases "readdir env (world st) folderPath")
  case None
  then show ?thesis by (simp add: getValidPDFs_def getValidPDFsWith_def outputNames_say)
next
  case (Some items)
  obtain v st' where c: "collectPDFs MIN_FILE_SIZE env folderPath items ([], st) = (v, st')"
    by (cases "collectPDFs MIN_FILE_SIZE env folderPath items ([], st)")
  with outputNames_collectPDFs[of MIN_FILE_SIZE env folderPath items "[]" st]
  have "outputNames (console st') = outputNames (console st)" by simp
  with Some c show ?thesis by (simp add: getValidPDFs_def getValidPDFsWith_def)
qed

lemma world_getValidPDFs: "world (snd (getValidPDFs env st folderPath)) = world st"
proof (cases "readdir env (world st) folderPath")
  case None
  then show ?thesis by (simp add: getValidPDFs_def getValidPDFsWith_def world_say)
next
  case (Some items)
  obtain v st' where c: "collectPDFs MIN_FILE_SIZE env folderPath items ([], st) = (v, st')"
    by (cases "collectPDFs MIN_FILE_SIZE env folderPath items ([], st)")
  with world_collectPDFs[of MIN_FILE_SIZE env folderPath items "[]" st]
  have "world st' = world st" by simp
  with Some c show ?thesis by (simp add: getValidPDFs_def getValidPDFsWith_def)
qed

lemma fst_getValidPDFs_world:
  "world st = world st' \<Longrightarrow>
   fst (getValidPDFs env st folderPath) = fst (getValidPDFs env st' folderPath)"
proof (cases "readdir env (world st) folderPath")
  case None
  assume "world st = world st'"
  with None show ?thesis by (simp add: getValidPDFs_def getValidPDFsWith_def)
next
  case (Some items)
  assume w: "world st = world st'"
  obtain v1 s1 where c1: "collectPDFs MIN_FILE_SIZE env folderPath items ([], st) = (v1, s1)"
    by (cases "collectPDFs MIN_FILE_SIZE env folderPath items ([], st)")
  obtain v2 s2 where c2: "collectPDFs MIN_FILE_SIZE env folderPath items ([], st') = (v2, s2)"
    by (cases "collectPDFs MIN_FILE_SIZE env folderPath items ([], st')")
  from c1 c2 w fst_collectPDFs[of MIN_FILE_SIZE env folderPath items "[]" st]
    fst_collectPDFs[of MIN_FILE_SIZE env folderPath items "[]" st']
  have "v1 = v2" by simp
  with Some w c1 c2 show ?thesis by (simp add: getValidPDFs_def getValidPDFsWith_def)
qed

lemma outputNames_importAll:
  "outputNames (snd (importAll env w pdfFiles (mergedPdf, con))) = outputNames con"
  by (induction pdfFiles arbitrary: mergedPdf con)
     (simp_all add: Let_def outputNames_append outputNames_def split: option.splits)

lemma outputNames_mergePDFs:
  "outputNames (console (snd (mergePDFs env st pdfFiles outputPath))) = outputNames (console st)"
proof -
  obtain ok1 w1 where cp: "copyFile env (world st) (pdf_path (pdfFiles ! 0)) outputPath = (ok1, w1)"
    by (cases "copyFile env (world st) (pdf_path (pdfFiles ! 0)) outputPath")
  obtain m con where ia: "importAll env (world st) pdfFiles ([], console st) = (m, con)"
    by (cases "importAll env (world st) pdfFiles ([], console st)")
  with outputNames_importAll[of env "world st" pdfFiles "[]" "console st"]
  have con: "outputNames con = outputNames (console st)" by simp
  show ?thesis
  proof (cases "PDFDocument_save env m")
    case None
    with cp ia con show ?thesis
      by (cases ok1) (simp_all add: mergePDFs_def outputNames_say)
  next
    case (Some b)
    obtain ok2 w2 where wf: "writeFile env (world st) outputPath b = (ok2, w2)"
      by (cases "writeFile env (world st) outputPath b")
    with Some cp ia con show ?thesis
      by (cases ok1; cases ok2) (simp_all add: mergePDFs_def outputNames_say)
  qed
qed

lemma outputNames_processFolder:
  "outputNames (console (snd (processFolder env sourceDir outputDir folders i r))) =
     outputNames (console r) @ [generateFileName (folders ! i) (i + 1)]"
proof -
  let ?folderPath = "folders ! i"
  let ?full = "if ?folderPath = js ''.'' then sourceDir else path_join sourceDir ?folderPath"
  let ?name = "generateFileName ?folderPath (i + 1)"
  let ?out = "path_join outputDir ?name"
  let ?st1 = "say ConsoleLog (Output ?name)
                (say ConsoleLog (Processing (i + 1) (length folders) ?folderPath)
                   \<lparr>world = world r, console = console r\<rparr>)"
  have o1: "outputNames (console ?st1) = outputNames (console r) @ [?name]"
    by (simp add: outputNames_say)
  obtain pdfFiles st2 where g: "getValidPDFs env ?st1 ?full = (pdfFiles, st2)"
    by (cases "getValidPDFs env ?st1 ?full")
  with outputNames_getValidPDFs[of env ?st1 ?full] o1
  have o2: "outputNames (console st2) = outputNames (console r) @ [?name]" by simp
  obtain ok st3 where m: "mergePDFs env st2 pdfFiles ?out = (ok, st3)"
    by (cases "mergePDFs env st2 pdfFiles ?out")
  with outputNames_mergePDFs[of env st2 pdfFiles ?out] o2
  have o3: "outputNames (console st3) = outputNames (console r) @ [?name]" by simp
  show ?thesis
  proof (cases "pdfFiles = []")
    case True
    with g o2 show ?thesis
      by (simp add: processFolder_def Let_def outputNames_append outputNames_def)
  next
    case False
    show ?thesis
    proof (cases ok)
      case False
      with \<open>pdfFiles \<noteq> []\<close> g m o3 show ?thesis
        by (simp add: processFolder_def Let_def outputNames_append outputNames_def)
    next
      case True
      with \<open>pdfFiles \<noteq> []\<close> g m o3 show ?thesis
        by (cases "stat env (world st3) ?out")
           (simp_all add: processFolder_def Let_def outputNames_append outputNames_def)
    qed
  qed
qed

lemma namingPlan_nth:
  "i < length folders \<Longrightarrow> namingPlan folders ! i = generateFileName (folders ! i) (i + 1)"
  by (simp add: namingPlan_def)

lemma fst_importAll_console:
  "fst (importAll env w pdfFiles (mergedPdf, con)) = fst (importAll env w pdfFiles (mergedPdf, con'))"
  by (induction pdfFiles arbitrary: mergedPdf con con')
     (simp_all add: Let_def split: option.splits)

lemma world_mergePDFs_console:
  assumes "world st = world st'"
  shows "world (snd (mergePDFs env st pdfFiles outputPath)) =
         world (snd (mergePDFs env st' pdfFiles outputPath))"
proof -
  obtain ok1 w1 where cp: "copyFile env (world st) (pdf_path (pdfFiles ! 0)) outputPath = (ok1, w1)"
    by (cases "copyFile env (world st) (pdf_path (pdfFiles ! 0)) outputPath")
  obtain m con where ia: "importAll env (world st) pdfFiles ([], console st) = (m, con)"
    by (cases "importAll env (world st) pdfFiles ([], console st)")
  obtain m' con' where ia': "importAll env (world st) pdfFiles ([], console st') = (m', con')"
    by (cases "importAll env (world st) pdfFiles ([], console st')")
  from ia ia' fst_importAll_console[of env "world st" pdfFiles "[]" "console st" "console st'"]
  have mm: "m' = m" by simp
  show ?thesis
  proof (cases "PDFDocument_save env m")
    case None
    with cp ia ia' mm assms show ?thesis
      by (cases ok1) (simp_all add: mergePDFs_def world_say)
  next
    case (Some b)
    obtain ok2 w2 where wf: "writeFile env (world st) outputPath b = (ok2, w2)"
      by (cases "writeFile env (world st) outputPath b")
    with Some cp ia ia' mm assms show ?thesis
      by (cases ok1; cases ok2) (simp_all add: mergePDFs_def world_say)
  qed
qed

lemma world_processFolder:
  assumes "i < length folders"
  shows "world (snd (processFolder env sourceDir outputDir folders i r)) =
         mergeAtPlannedName env sourceDir outputDir folders (world r) i"
proof -
  let ?folderPath = "folders ! i"
  let ?full = "if ?folderPath = js ''.'' then sourceDir else path_join sourceDir ?folderPath"
  let ?name = "generateFileName ?folderPath (i + 1)"
  let ?out = "path_join outputDir ?name"
  let ?st0 = "\<lparr>world = world r, console = []\<rparr>"
  let ?st1 = "say ConsoleLog (Output ?name)
                (say ConsoleLog (Processing (i + 1) (length folders) ?folderPath)
                   \<lparr>world = world r, console = console r\<rparr>)"
  have w1: "world ?st1 = world ?st0" by (simp add: world_say)
  obtain pdfFiles st2 where g: "getValidPDFs env ?st1 ?full = (pdfFiles, st2)"
    by (cases "getValidPDFs env ?st1 ?full")
  from fst_getValidPDFs_world[OF w1, of env ?full] g
  have f0: "fst (getValidPDFs env ?st0 ?full) = pdfFiles" by simp
  from world_getValidPDFs[of env ?st1 ?full] g have w2: "world st2 = world ?st0"
    by (simp add: world_say)
  obtain ok st3 where m: "mergePDFs env st2 pdfFiles ?out = (ok, st3)"
    by (cases "mergePDFs env st2 pdfFiles ?out")
  from world_mergePDFs_console[OF w2, of env pdfFiles ?out] m
  have w3: "world st3 = world (snd (mergePDFs env ?st0 pdfFiles ?out))" by simp
  have lhs: "world (snd (processFolder env sourceDir outputDir folders i r)) =
      (if pdfFiles = [] then world r else world st3)"
  proof (cases "pdfFiles = []")
    case True
    with g w2 show ?thesis by (simp add: processFolder_def Let_def)
  next
    case False
    show ?thesis
    proof (cases ok)
      case False
      with \<open>pdfFiles \<noteq> []\<close> g m show ?thesis by (simp add: processFolder_def Let_def)
    next
      case True
      with \<open>pdfFiles \<noteq> []\<close> g m show ?thesis
        by (cases "stat env (world st3) ?out") (simp_all add: processFolder_def Let_def)
    qed
  qed
  with f0 w3 assms show ?thesis
    by (simp add: mergeAtPlannedName_def Let_def namingPlan_nth)
qed

lemma mainLoop_world:
  "i \<le> length folders \<Longrightarrow>
   \<exists>k. i \<le> k \<and> k \<le> length folders \<and>
     outputNames (console (snd (mainLoop env sourceDir outputDir folders i r))) =
       outputNames (console r) @ map (\<lambda>j. generateFileName (folders ! j) (j + 1)) [i..<k] \<and>
     world (snd (mainLoop env sourceDir outputDir folders i r)) =
       foldl (mergeAtPlannedName env sourceDir outputDir folders) (world r) [i..<k] \<and>
     (\<not> fst (mainLoop env sourceDir outputDir folders i r) \<longrightarrow> k = length folders)"
proof (induction env sourceDir outputDir folders i r rule: mainLoop.induct)
  case (1 env sourceDir outputDir folders i r)
  show ?case
  proof (cases "i < length folders")
    case False
    with 1(2) have "i = length folders" by simp
    with False show ?thesis by (subst (1 2 3) mainLoop.simps) auto
  next
    case True
    obtain fatal r' where p: "processFolder env sourceDir outputDir folders i r = (fatal, r')"
      by (cases "processFolder env sourceDir outputDir folders i r")
    with outputNames_processFolder[of env sourceDir outputDir folders i r]
    have o: "outputNames (console r') =
        outputNames (console r) @ [generateFileName (folders ! i) (i + 1)]" by simp
    from p world_processFolder[OF True, of env sourceDir outputDir r]
    have w: "world r' = mergeAtPlannedName env sourceDir outputDir folders (world r) i" by simp
    show ?thesis
    proof (cases fatal)
      case True
      with p \<open>i < length folders\<close> have
        "mainLoop env sourceDir outputDir folders i r = (True, r')"
        by (subst mainLoop.simps) simp
      with o w \<open>i < length folders\<close> show ?thesis
        by (intro exI[of _ "Suc i"]) simp
    next
      case False
      with p \<open>i < length folders\<close> have ml:
        "mainLoop env sourceDir outputDir folders i r =
           mainLoop env sourceDir outputDir folders (i + 1) r'"
        by (subst mainLoop.simps) simp
      from False have ff: "fatal = False" by simp
      from \<open>i < length folders\<close> have le: "i + 1 \<le> length folders" by simp
      from 1(1)[OF \<open>i < length folders\<close> p[symmetric] ff le]
      obtain k where k: "i + 1 \<le> k" "k \<le> length folders"
        "outputNames (console (snd (mainLoop env sourceDir outputDir folders (i + 1) r'))) =
           outputNames (console r') @ map (\<lambda>j. generateFileName (folders ! j) (j + 1)) [i + 1..<k]"
        "world (snd (mainLoop env sourceDir outputDir folders (i + 1) r')) =
           foldl (mergeAtPlannedName env sourceDir outputDir folders) (world r') [i + 1..<k]"
        "\<not> fst (mainLoop env sourceDir outputDir folders (i + 1) r') \<longrightarrow> k = length folders"
        by auto
      from k(1) have "[i..<k] = i # [i + 1..<k]" by (simp add: upt_conv_Cons)
      with k o w ml show ?thesis by (intro exI[of _ k]) simp
    qed
  qed
qed

text \<open>
  C4. Whatever the file system holds, the loop handles the directories in scan order
  and gives the directory at position \<open>i\<close> the name with index \<open>i + 1\<close>, whether or
  not the directories before it had eligible files. Up to the position \<open>k\<close> the loop
  reaches (all of them unless an exception ends it), the names it announces are the
  first \<open>k\<close> names of \<open>namingPlan folders\<close>, and the file system it leaves is the one
  obtained by merging each directory in turn into the path of its own name of
  \<open>namingPlan folders\<close> in the output directory: the path handed to \<open>mergePDFs\<close> is
  the one named by the position among all scanned directories.
\<close>

theorem naming_index_is_scan_position:
  "\<exists>k\<le>length folders.
     outputNames (console (snd (mainLoop env sourceDir outputDir folders 0 r))) =
       outputNames (console r) @ take k (namingPlan folders) \<and>
     world (snd (mainLoop env sourceDir outputDir folders 0 r)) =
       foldl (mergeAtPlannedName env sourceDir outputDir folders) (world r) [0..<k] \<and>
     (\<not> fst (mainLoop env sourceDir outputDir folders 0 r) \<longrightarrow> k = length folders)"
proof -
  from mainLoop_world[of 0 folders env sourceDir outputDir r]
  obtain k where k: "k \<le> length folders"
    "outputNames (console (snd (mainLoop env sourceDir outputDir folders 0 r))) =
       outputNames (console r) @ map (\<lambda>j. generateFileName (folders ! j) (j + 1)) [0..<k]"
    "world (snd (mainLoop env sourceDir outputDir folders 0 r)) =
       foldl (mergeAtPlannedName env sourceDir outputDir folders) (world r) [0..<k]"
    "\<not> fst (mainLoop env sourceDir outputDir folders 0 r) \<longrightarrow> k = length folders"
    by auto
  from k(1) have "take k (namingPlan folders) =
      map (\<lambda>j. generateFileName (folders ! j) (j + 1)) [0..<k]"
    by (simp add: namingPlan_def take_map)
  with k show ?thesis by auto
qed

lemmas ev_name = generateFileName_def cleanFolderName_def js_simps matchHashAt_def trim_def cls
  padStart_def digit_def String_nat_small String_nat_large


lemmas ev_run = mainLoop.simps processFolder_def Let_def say_def getValidPDFs_def
  getValidPDFsWith_def mergePDFs_def stub_env_def path_join_def isPdfName_def toLowerAscii_def
  MIN_FILE_SIZE_def sortBy_def

lemma example_loop:
  "mainLoop stub_env (js ''/docs'') (js ''/docs/output'') [js ''A'', js ''B''] 0 example_run =
     (False, example_run\<lparr>
        world := example_world\<lparr>files :=
          (js ''/docs/output/02-B.pdf'', 0x25 # replicate 51199 0) # files example_world\<rparr>,
        console :=
          [(ConsoleLog, Processing 1 2 (js ''A'')), (ConsoleLog, Output (js ''01-A.pdf'')),
           (ConsoleLog, SkippingSmallFile (js ''stub.pdf'')), (ConsoleLog, NoValidPDFsFound),
           (ConsoleLog, Processing 2 2 (js ''B'')), (ConsoleLog, Output (js ''02-B.pdf'')),
           (ConsoleLog, CopiedSinglePDF (js ''doc2.pdf'')), (ConsoleLog, Success)],
        processedCount := 2, successCount := 1\<rparr>)"
  by (simp add: ev_run ev_name example_run_def example_world_def)

lemma example_plan_world:
  "map fst (files (foldl (mergeAtPlannedName stub_env (js ''/docs'') (js ''/docs/output'')
       [js ''A'', js ''B'']) example_world [0..<length [js ''A'', js ''B'']])) =
     [js ''/docs/output/02-B.pdf'', js ''/docs/A/stub.pdf'', js ''/docs/B/doc2.pdf'']"
  by (simp add: mergeAtPlannedName_def namingPlan_def upt_rec ev_run ev_name example_world_def)

theorem naming_index_is_scan_position_witness:
  "\<not> fst (mainLoop stub_env (js ''/docs'') (js ''/docs/output'') [js ''A'', js ''B''] 0 example_run) \<and>
   (ConsoleLog, NoValidPDFsFound) \<in>
     set (console (snd (mainLoop stub_env (js ''/docs'') (js ''/docs/output'')
       [js ''A'', js ''B''] 0 example_run))) \<and>
   outputNames (console (snd (mainLoop stub_env (js ''/docs'') (js ''/docs/output'')
       [js ''A'', js ''B''] 0 example_run))) = [js ''01-A.pdf'', js ''02-B.pdf''] \<and>
   map fst (files (world (snd (mainLoop stub_env (js ''/docs'') (js ''/docs/output'')
       [js ''A'', js ''B''] 0 example_run)))) =
     [js ''/docs/output/02-B.pdf'', js ''/docs/A/stub.pdf'', js ''/docs/B/doc2.pdf'']"
proof -
  let ?run = "mainLoop stub_env (js ''/docs'') (js ''/docs/output'') [js ''A'', js ''B''] 0 example_run"
  have nf: "\<not> fst ?run" and skipped: "(ConsoleLog, NoValidPDFsFound) \<in> set (console (snd ?run))"
    by (simp_all add: example_loop)
  have c0: "outputNames (console example_run) = []" "world example_run = example_world"
    by (simp_all add: example_run_def outputNames_def)
  have plan: "namingPlan [js ''A'', js ''B''] = [js ''01-A.pdf'', js ''02-B.pdf'']"
    by (simp add: namingPlan_def upt_rec ev_name)
  from naming_index_is_scan_position
    [of "[js ''A'', js ''B'']" stub_env "js ''/docs''" "js ''/docs/output''" example_run] nf
  have "outputNames (console (snd ?run)) =
      outputNames (console example_run) @
        take (length [js ''A'', js ''B'']) (namingPlan [js ''A'', js ''B''])"
    and "world (snd ?run) =
      foldl (mergeAtPlannedName stub_env (js ''/docs'') (js ''/docs/output'') [js ''A'', js ''B''])
        (world example_run) [0..<length [js ''A'', js ''B'']]"
    by blast+
  with c0 plan example_plan_world
  have "outputNames (console (snd ?run)) = [js ''01-A.pdf'', js ''02-B.pdf'']"
    and "map fst (files (world (snd ?run))) =
      [js ''/docs/output/02-B.pdf'', js ''/docs/A/stub.pdf'', js ''/docs/B/doc2.pdf'']"
    by simp_all
  with nf skipped show ?thesis by blast
qed

lemma processFolder_empty:
  assumes "fst (getValidPDFs env \<lparr>world = world r, console = []\<rparr>
             (if folders ! i = js ''.'' then sourceDir else path_join sourceDir (folders ! i))) = []"
  shows "fst (processFolder env sourceDir outputDir folders i r) = False \<and>
         world (snd (processFolder env sourceDir outputDir folders i r)) = world r \<and>
         successCount (snd (processFolder env sourceDir outputDir folders i r)) = successCount r \<and>
         processedCount (snd (processFolder env sourceDir outputDir folders i r)) =
           processedCount r + 1 \<and>
         last (console (snd (processFolder env sourceDir outputDir folders i r))) =
           (ConsoleLog, NoValidPDFsFound)"
proof -
  let ?full = "if folders ! i = js ''.'' then sourceDir else path_join sourceDir (folders ! i)"
  let ?st1 = "say ConsoleLog (Output (generateFileName (folders ! i) (i + 1)))
                (say ConsoleLog (Processing (i + 1) (length folders) (folders ! i))
                   \<lparr>world = world r, console = console r\<rparr>)"
  obtain pdfFiles st2 where g: "getValidPDFs env ?st1 ?full = (pdfFiles, st2)"
    by (cases "getValidPDFs env ?st1 ?full")
  have "world ?st1 = world \<lparr>world = world r, console = []\<rparr>" by (simp add: world_say)
  from fst_getValidPDFs_world[OF this, of env ?full] assms g have e: "pdfFiles = []" by simp
  from world_getValidPDFs[of env ?st1 ?full] g have w: "world st2 = world r"
    by (simp add: world_say)
  from g e w show ?thesis by (simp add: processFolder_def Let_def)
qed

text \<open>
  C9. \<open>mergePDFs\<close> on no files writes nothing (the file system is unchanged), throws
  nothing and writes the one line \<^verbatim>\<open>No PDFs to merge\<close> with \<^verbatim>\<open>console.log\<close>, not
  \<^verbatim>\<open>console.error\<close>; the value returned is \<^verbatim>\<open>false\<close>. In \<open>main\<close> a directory with
  no eligible file does not reach \<open>mergePDFs\<close>: it is reported with
  \<^verbatim>\<open>No valid PDFs found\<close>, not with \<^verbatim>\<open>Failed to merge\<close>, the file system is
  unchanged, the directory is counted as processed and not as a success.
\<close>

theorem empty_set_is_skipped:
  "fst (mergePDFs env st [] outputPath) = False \<and>
   world (snd (mergePDFs env st [] outputPath)) = world st \<and>
   console (snd (mergePDFs env st [] outputPath)) = console st @ [(ConsoleLog, NoPDFsToMerge)] \<and>
   (fst (getValidPDFs env \<lparr>world = world r, console = []\<rparr>
          (if folders ! i = js ''.'' then sourceDir else path_join sourceDir (folders ! i))) = []
    \<longrightarrow>
      fst (processFolder env sourceDir outputDir folders i r) = False \<and>
      world (snd (processFolder env sourceDir outputDir folders i r)) = world r \<and>
      successCount (snd (processFolder env sourceDir outputDir folders i r)) = successCount r \<and>
      processedCount (snd (processFolder env sourceDir outputDir folders i r)) =
        processedCount r + 1 \<and>
      last (console (snd (processFolder env sourceDir outputDir folders i r))) =
        (ConsoleLog, NoValidPDFsFound))"
  using processFolder_empty[of env r folders i sourceDir outputDir]
  by (simp add: mergePDFs_def world_say console_say)

theorem empty_set_is_skipped_witness:
  "fst (getValidPDFs stub_env \<lparr>world = example_world, console = []\<rparr> (js ''/docs/A'')) = [] \<and>
   fst (processFolder stub_env (js ''/docs'') (js ''/docs/output'') [js ''A'', js ''B''] 0
          example_run) = False \<and>
   world (snd (processFolder stub_env (js ''/docs'') (js ''/docs/output'') [js ''A'', js ''B''] 0
          example_run)) = example_world \<and>
   successCount (snd (processFolder stub_env (js ''/docs'') (js ''/docs/output'')
          [js ''A'', js ''B''] 0 example_run)) = 0 \<and>
   last (console (snd (processFolder stub_env (js ''/docs'') (js ''/docs/output'')
          [js ''A'', js ''B''] 0 example_run))) = (ConsoleLog, NoValidPDFsFound)"
proof -
  have g: "fst (getValidPDFs stub_env \<lparr>world = example_world, console = []\<rparr> (js ''/docs/A'')) = []"
    by (simp add: ev_run example_world_def js_simps)
  have p: "(if [js ''A'', js ''B''] ! 0 = js ''.'' then js ''/docs''
            else path_join (js ''/docs'') ([js ''A'', js ''B''] ! 0)) = js ''/docs/A''"
    by (simp add: path_join_def js_simps)
  have w: "world example_run = example_world" "successCount example_run = 0"
    by (simp_all add: example_run_def)
  from empty_set_is_skipped
    [of stub_env _ _ example_run "[js ''A'', js ''B'']" 0 "js ''/docs''" "js ''/docs/output''"]
    g
  show ?thesis unfolding p w by blast
qed

section \<open>Properties of scanFolders\<close>

lemma path_join_not_dot: "path_join a b \<noteq> js ''.''"
  by (simp add: path_join_def js_simps append_eq_Cons_conv)

lemma fst_scanFolders: "fst (scanFolders root basePath con) = sort (fst (scan root basePath (js ''.'') ([], con)))"
  by (simp add: scanFolders_def split: prod.splits)

lemma scan_prefix:
  "relativePath \<noteq> js ''.'' \<Longrightarrow> p \<in> set (fst (scan t currentPath relativePath acc)) \<Longrightarrow>
     p \<in> set (fst acc) \<or> (\<exists>rest. p = relativePath @ rest)"
  "relativePath \<noteq> js ''.'' \<Longrightarrow> p \<in> set (fst (scanItems items currentPath relativePath acc)) \<Longrightarrow>
     p \<in> set (fst acc) \<or> (\<exists>rest. p = relativePath @ rest)"
proof (induction t currentPath relativePath acc and items currentPath relativePath acc
    arbitrary: p and p rule: scan_scanItems.induct)
  case (1 currentPath relativePath folders con)
  then show ?case by simp
next
  case (2 items currentPath relativePath folders con)
  from 2(1)[OF refl 2(2), of p] 2(3) show ?case
    by (auto simp: Let_def split: if_splits)
next
  case (3 currentPath relativePath acc)
  then show ?case by simp
next
  case (4 n items currentPath relativePath acc)
  then show ?case by simp
next
  case (5 n items currentPath relativePath acc)
  then show ?case by simp
next
  case (6 n sub items currentPath relativePath acc)
  let ?subRel = "path_join relativePath n"
  let ?acc' = "scan sub (path_join currentPath n) ?subRel acc"
  from 6(4) 6(3) have "p \<in> set (fst (scanItems items currentPath relativePath ?acc'))"
    by (simp add: Let_def)
  with 6(2)[OF refl refl 6(3)] 6(3)
  have "p \<in> set (fst ?acc') \<or> (\<exists>rest. p = relativePath @ rest)" by (simp add: Let_def)
  moreover {
    assume "p \<in> set (fst ?acc')"
    with 6(1)[OF refl refl, of p] 6(3) path_join_not_dot[of relativePath n]
    have "p \<in> set (fst acc) \<or> (\<exists>rest. p = ?subRel @ rest)" by simp
    then have "p \<in> set (fst acc) \<or> (\<exists>rest. p = relativePath @ rest)"
      by (auto simp: path_join_def)
  }
  ultimately show ?case by blast
qed


lemma scanItems_root:
  "p \<in> set (fst (scanItems items currentPath (js ''.'') acc)) \<Longrightarrow>
   \<forall>n sub. DirItem n sub \<in> set items \<longrightarrow> n \<noteq> js ''.'' \<Longrightarrow>
   p \<in> set (fst acc) \<or> (\<exists>n sub rest. DirItem n sub \<in> set items \<and> p = n @ rest)"
proof (induction items arbitrary: acc)
  case Nil
  then show ?case by simp
next
  case (Cons item items)
  show ?case
  proof (cases item)
    case (FileItem n)
    with Cons.prems Cons.IH[of acc] show ?thesis by auto
  next
    case (OtherItem n)
    with Cons.prems Cons.IH[of acc] show ?thesis by auto
  next
    case (DirItem n sub)
    let ?acc' = "scan sub (path_join currentPath n) n acc"
    from Cons.prems(2) DirItem have nd: "n \<noteq> js ''.''" by simp
    from Cons.prems(1) DirItem have "p \<in> set (fst (scanItems items currentPath (js ''.'') ?acc'))"
      by (simp add: Let_def)
    moreover from Cons.prems(2) have "\<forall>n sub. DirItem n sub \<in> set items \<longrightarrow> n \<noteq> js ''.''"
      by auto
    ultimately
    have "p \<in> set (fst ?acc') \<or> (\<exists>n sub rest. DirItem n sub \<in> set items \<and> p = n @ rest)"
      by (rule Cons.IH)
    moreover {
      assume "p \<in> set (fst ?acc')"
      with scan_prefix(1)[OF nd] have "p \<in> set (fst acc) \<or> (\<exists>rest. p = n @ rest)" by blast
      with DirItem have ?thesis by auto
    }
    ultimately show ?thesis by auto
  qed
qed

lemma scan_root:
  assumes "p \<in> set (fst (scan (Some items) currentPath (js ''.'') ([], con)))"
    and "\<forall>n sub. DirItem n sub \<in> set items \<longrightarrow> n \<noteq> js ''.''"
  shows "p = js ''.'' \<or> (\<exists>n sub rest. DirItem n sub \<in> set items \<and> p = n @ rest)"
  using assms scanItems_root[of p items currentPath _ ] 
  by (fastforce simp: Let_def split: if_splits)

lemma dot_le: "c \<noteq> [] \<Longrightarrow> 0x2E \<le> hd c \<Longrightarrow> js ''.'' \<le> c @ rest"
  by (cases c) (auto simp: js_simps)

lemma sorted_hd_least:
  fixes l :: "jsstring list"
  assumes "sorted l" and "x \<in> set l" and "\<forall>p\<in>set l. x \<le> p"
  shows "hd l = x"
proof -
  from assms(2) obtain y ys where l: "l = y # ys" by (cases l) auto
  with assms(1,2) have "y \<le> x" by auto
  moreover from assms(3) l have "x \<le> y" by simp
  ultimately show ?thesis using l by simp
qed

text \<open>
  C3, as amended. The paths returned are in ascending order of their UTF-16 code units.
  The root \<^verbatim>\<open>.\<close>, when it is among them, comes first provided no directory directly
  under the root has a name that starts with a code unit below \<^verbatim>\<open>.\<close> (U+002E); that
  a name is neither empty nor \<^verbatim>\<open>.\<close> holds of every directory entry.
\<close>

theorem scan_order:
  "sorted (fst (scanFolders root basePath con)) \<and>
   (root = Some items \<and>
    (\<forall>n sub. DirItem n sub \<in> set items \<longrightarrow> n \<noteq> [] \<and> n \<noteq> js ''.'' \<and> 0x2E \<le> hd n) \<and>
    js ''.'' \<in> set (fst (scanFolders root basePath con))
    \<longrightarrow> hd (fst (scanFolders root basePath con)) = js ''.'')"
proof (intro conjI impI)
  show "sorted (fst (scanFolders root basePath con))"
    by (simp add: fst_scanFolders)
next
  assume a: "root = Some items \<and>
    (\<forall>n sub. DirItem n sub \<in> set items \<longrightarrow> n \<noteq> [] \<and> n \<noteq> js ''.'' \<and> 0x2E \<le> hd n) \<and>
    js ''.'' \<in> set (fst (scanFolders root basePath con))"
  have "\<forall>p\<in>set (fst (scanFolders root basePath con)). js ''.'' \<le> p"
  proof
    fix p assume "p \<in> set (fst (scanFolders root basePath con))"
    with a have "p \<in> set (fst (scan (Some items) basePath (js ''.'') ([], con)))"
      by (simp add: fst_scanFolders)
    with a scan_root[of p items basePath con]
    have "p = js ''.'' \<or> (\<exists>n sub rest. DirItem n sub \<in> set items \<and> p = n @ rest)" by blast
    with a show "js ''.'' \<le> p" using dot_le by auto
  qed
  moreover have "sorted (fst (scanFolders root basePath con))"
    by (simp add: fst_scanFolders)
  moreover from a have "js ''.'' \<in> set (fst (scanFolders root basePath con))" by blast
  ultimately show "hd (fst (scanFolders root basePath con)) = js ''.''"
    using sorted_hd_least by blast
qed

text \<open>
  C3 as stated fails: \<^verbatim>\<open>(\<close> is U+0028, so the directory \<^verbatim>\<open>(Archive)\<close> is sorted before
  the root.
\<close>

theorem root_first_counterexample:
  "fst (scanFolders archive_tree (js ''/docs'') []) = [js ''(Archive)'', js ''.'', js ''Guides'']"
  by (simp add: scanFolders_def archive_tree_def Let_def isPdfName_def toLowerAscii_def js_simps
      path_join_def)

lemma guides_scan:
  "fst (scanFolders guides_tree (js ''/docs'') []) = [js ''.'', js ''Guides'', js ''Guides/Advanced'']"
  by (simp add: scanFolders_def guides_tree_def Let_def isPdfName_def toLowerAscii_def js_simps
      path_join_def)

theorem scan_order_witness:
  "sorted (fst (scanFolders guides_tree (js ''/docs'') [])) \<and>
   js ''.'' \<in> set (fst (scanFolders guides_tree (js ''/docs'') [])) \<and>
   hd (fst (scanFolders guides_tree (js ''/docs'') [])) = js ''.''"
proof -
  have n: "\<forall>n sub. DirItem n sub \<in> set (the guides_tree) \<longrightarrow>
      n \<noteq> [] \<and> n \<noteq> js ''.'' \<and> 0x2E \<le> hd n"
    by (auto simp: guides_tree_def js_simps)
  have r: "guides_tree = Some (the guides_tree)" by (simp add: guides_tree_def)
  have d: "js ''.'' \<in> set (fst (scanFolders guides_tree (js ''/docs'') []))"
    by (simp add: guides_scan)
  from scan_order[of guides_tree "js ''/docs''" "[]" "the guides_tree"] n r d
  show ?thesis by blast
qed

end
